theory Spec2Isabelle
  imports Complex_Main
begin

section \<open>Data model of main.js\<close>

text \<open>
  The game keeps all of its state in module-level variables. They are collected in the
  record \<open>game\<close>; every function of the source that mutates them becomes a function
  from \<open>game\<close> to \<open>game\<close>. JavaScript numbers are modelled as exact reals: the
  properties below are about comparisons, clamping and sums of small decimal constants.
  The score, the high score and the counters only ever hold integers.
\<close>

subsection \<open>The canvas\<close>

definition canvas_width :: real where
  "canvas_width = 800"

definition canvas_height :: real where
  "canvas_height = 600"

text \<open>The result of \<open>canvas.getBoundingClientRect()\<close>: supplied by the host.\<close>

record rect =
  r_left :: real
  r_top :: real
  r_width :: real
  r_height :: real

subsection \<open>Math.random\<close>

text \<open>
  \<open>Math.random()\<close> returns a number in the half-open interval from 0 to 1. The
  type \<open>rand\<close> holds exactly these numbers. A run of the program sees a sequence of
  them, \<open>rnd :: nat \<Rightarrow> rand\<close>; the field \<open>seed\<close> of the state counts the calls made
  so far, so that the next call returns \<open>rnd (seed s)\<close>.
\<close>

typedef rand = "{r :: real. 0 \<le> r \<and> r < 1}"
  by (rule exI [of _ 0]) simp

setup_lifting type_definition_rand

lift_definition rand_zero :: rand is "0 :: real"
  by simp

lift_definition rand_half :: rand is "1 / 2 :: real"
  by simp

lift_definition rand_tenth :: rand is "1 / 10 :: real"
  by simp

definition Math_random :: "(nat \<Rightarrow> rand) \<Rightarrow> nat \<Rightarrow> real" where
  "Math_random rnd k = Rep_rand (rnd k)"

subsection \<open>Player, obstacles, particles\<close>

record player =
  p_x :: real
  p_y :: real
  p_width :: real
  p_height :: real
  p_speed :: real
  p_dx :: real
  p_animationFrame :: real

record obstacle =
  o_x :: real
  o_y :: real
  o_width :: real
  o_height :: real
  o_speed :: real
  o_originalSpeed :: real
  o_isBonus :: bool
  o_hasTransformed :: bool
  o_isGrowing :: bool
  o_scale :: real
  o_targetScale :: real
  o_rotation :: real

text \<open>A sparkle of \<open>bonusParticles\<close>.\<close>

record sparkle =
  b_x :: real
  b_y :: real
  b_vx :: real
  b_vy :: real
  b_size :: real
  b_life :: real
  b_decay :: real
  b_color :: string

text \<open>
  A particle of \<open>explosionParticles\<close>. Fire particles are pushed without the field
  \<open>isSmoke\<close>, which then reads as undefined, that is, as false.
\<close>

record particle =
  e_x :: real
  e_y :: real
  e_vx :: real
  e_vy :: real
  e_size :: real
  e_life :: real
  e_decay :: real
  e_color :: string
  e_friction :: real
  e_isSmoke :: bool

subsection \<open>The module-level state\<close>

text \<open>
  \<open>keys\<close> maps a key name to whether it is held; a key never pressed reads as
  undefined, that is, as false. \<open>stored\<close> is the slot \<open>highScore\<close> of localStorage.
\<close>

record game =
  player :: player
  obstacles :: "obstacle list"
  frameCount :: nat
  gameOver :: bool
  score :: int
  highScore :: int
  explosionParticles :: "particle list"
  bonusParticles :: "sparkle list"
  showGameOverText :: bool
  scoreFlashTime :: nat
  keys :: "string \<Rightarrow> bool"
  touchStartX :: real
  touchCurrentX :: real
  isTouching :: bool
  stored :: "int option"
  seed :: nat

definition initial_player :: player where
  "initial_player =
     \<lparr> p_x = canvas_width / 2 - 35, p_y = canvas_height - 120, p_width = 70,
       p_height = 45, p_speed = 6, p_dx = 0, p_animationFrame = 0 \<rparr>"

text \<open>The state after the module has loaded, given what localStorage holds.\<close>

definition initial :: "int option \<Rightarrow> game" where
  "initial st =
     \<lparr> player = initial_player, obstacles = [], frameCount = 0, gameOver = False,
       score = 0, highScore = (case st of None \<Rightarrow> 0 | Some h \<Rightarrow> h),
       explosionParticles = [], bonusParticles = [], showGameOverText = False,
       scoreFlashTime = 0, keys = (\<lambda>k. False), touchStartX = 0, touchCurrentX = 0,
       isTouching = False, stored = st, seed = 0 \<rparr>"

section \<open>updatePlayer\<close>

text \<open>
  The horizontal velocity chosen from the keyboard and the touch state (the first part
  of \<open>updatePlayer\<close>). The later assignment wins, as in the source: right over left,
  touch over both. For a canvas rectangle of width 0 the source divides by zero: the
  quotient is plus or minus Infinity, whose sign gives the direction, or NaN (0 / 0),
  for which the test \<open>Math.abs(diff) > 2\<close> is false. That case is written out.
\<close>

definition playerIntent :: "rect \<Rightarrow> game \<Rightarrow> real" where
  "playerIntent canvasRect s =
     (let p = player s;
          dx0 = 0;
          dx1 = (if keys s ''ArrowLeft'' \<or> keys s ''a'' \<or> keys s ''A''
                 then - p_speed p else dx0);
          dx2 = (if keys s ''ArrowRight'' \<or> keys s ''d'' \<or> keys s ''D''
                 then p_speed p else dx1)
      in if isTouching s then
           (let canvasX = touchCurrentX s - r_left canvasRect
            in if r_width canvasRect = 0 then
                 (if canvasX > 0 then p_speed p
                  else if canvasX < 0 then - p_speed p
                  else dx2)
               else
                 (let canvasRelativeX = (canvasX / r_width canvasRect) * canvas_width;
                      targetX = canvasRelativeX - p_width p / 2;
                      diff = targetX - p_x p
                  in if \<bar>diff\<bar> > 2 then sgn diff * p_speed p else dx2))
         else dx2)"

text \<open>
  The second part of \<open>updatePlayer\<close>: move by the velocity, advance the animation
  while moving, and keep the player within the canvas.
\<close>

definition movePlayer :: "real \<Rightarrow> game \<Rightarrow> game" where
  "movePlayer dx s =
     (let p = player s;
          x1 = p_x p + dx;
          af = (if dx \<noteq> 0 then p_animationFrame p + 0.15 else p_animationFrame p);
          x2 = (if x1 < 0 then 0 else x1);
          x3 = (if x2 + p_width p > canvas_width then canvas_width - p_width p else x2)
      in s\<lparr>player := p\<lparr>p_x := x3, p_dx := dx, p_animationFrame := af\<rparr>\<rparr>)"

definition updatePlayer :: "rect \<Rightarrow> game \<Rightarrow> game" where
  "updatePlayer canvasRect s = movePlayer (playerIntent canvasRect s) s"

section \<open>createObstacle\<close>

definition minGap :: real where
  "minGap = 70"

definition maxAttempts :: nat where
  "maxAttempts = 20"

text \<open>The local constant \<open>y\<close> of \<open>createObstacle\<close>: where a new banana starts.\<close>

definition spawn_y :: real where
  "spawn_y = - 20"

text \<open>An element of the local array \<open>positions\<close>.\<close>

record position =
  pos_x :: real
  pos_width :: real

text \<open>
  The scan of \<open>positions\<close> for a candidate at \<open>x\<close>: it stops with \<open>valid = false\<close>
  at the first position that the candidate overlaps or that it misses by less than
  \<open>minGap\<close>.
\<close>

fun positionValid :: "real \<Rightarrow> real \<Rightarrow> position list \<Rightarrow> bool" where
  "positionValid x w [] = True"
| "positionValid x w (pos # rest) =
     (if x < pos_x pos + pos_width pos \<and> x + w > pos_x pos then False
      else
        (let leftGap = x - (pos_x pos + pos_width pos);
             rightGap = pos_x pos - (x + w)
         in if (leftGap > 0 \<and> leftGap < minGap) \<or> (rightGap > 0 \<and> rightGap < minGap)
            then False
            else positionValid x w rest))"

text \<open>The object literal pushed onto \<open>obstacles\<close>.\<close>

definition newObstacle :: "real \<Rightarrow> real \<Rightarrow> real \<Rightarrow> bool \<Rightarrow> bool \<Rightarrow> real \<Rightarrow> obstacle" where
  "newObstacle x w spd isBonus isGrowing rot =
     \<lparr> o_x = x, o_y = spawn_y, o_width = w, o_height = 20, o_speed = spd,
       o_originalSpeed = spd, o_isBonus = isBonus, o_hasTransformed = False,
       o_isGrowing = isGrowing, o_scale = 1.5, o_targetScale = 4.5, o_rotation = rot \<rparr>"

text \<open>
  One pass through the body of the attempt loop. It returns whether the banana was
  placed. The second random number of the variant roll is drawn only when the first did
  not make a bonus banana (\<open>!isBonus && Math.random() < 0.15\<close>).
\<close>

definition attempt :: "(nat \<Rightarrow> rand) \<Rightarrow> position list \<times> game \<Rightarrow> bool \<times> position list \<times> game" where
  "attempt rnd st =
     (case st of (positions, s) \<Rightarrow>
        (let width = 30;
             x = Math_random rnd (seed s) * (canvas_width - width);
             spd = Math_random rnd (seed s + 1) * 3 + 2;
             s1 = s\<lparr>seed := seed s + 2\<rparr>
         in if positionValid x width positions then
              (let isBonus = Math_random rnd (seed s1) < 0.2;
                   s2 = s1\<lparr>seed := seed s1 + 1\<rparr>;
                   isGrowing = (\<not> isBonus \<and> Math_random rnd (seed s2) < 0.15);
                   s3 = (if isBonus then s2 else s2\<lparr>seed := seed s2 + 1\<rparr>);
                   rot = Math_random rnd (seed s3) * pi * 2;
                   s4 = s3\<lparr>seed := seed s3 + 1\<rparr>
               in (True, positions @ [\<lparr> pos_x = x, pos_width = width \<rparr>],
                   s4\<lparr>obstacles :=
                        obstacles s4 @ [newObstacle x width spd isBonus isGrowing rot]\<rparr>))
            else (False, positions, s1)))"

text \<open>
  The attempt loop \<open>for (attempt = 0; attempt < maxAttempts && !placed; attempt++)\<close>,
  by the number of attempts that remain.
\<close>

fun placeBanana :: "(nat \<Rightarrow> rand) \<Rightarrow> nat \<Rightarrow> position list \<times> game \<Rightarrow> position list \<times> game" where
  "placeBanana rnd 0 st = st"
| "placeBanana rnd (Suc n) st =
     (case attempt rnd st of (placed, st') \<Rightarrow>
        if placed then st' else placeBanana rnd n st')"

text \<open>The loop over the bananas of the batch, by the number that remain.\<close>

fun placeBananas :: "(nat \<Rightarrow> rand) \<Rightarrow> nat \<Rightarrow> position list \<times> game \<Rightarrow> position list \<times> game" where
  "placeBananas rnd 0 st = st"
| "placeBananas rnd (Suc n) st = placeBananas rnd n (placeBanana rnd maxAttempts st)"

text \<open>The loop over neighbouring positions: some gap between two of them is wide enough.\<close>

fun gapBetween :: "position list \<Rightarrow> bool" where
  "gapBetween (p # q # rest) =
     (pos_x q - (pos_x p + pos_width p) \<ge> minGap \<or> gapBetween (q # rest))"
| "gapBetween _ = False"

text \<open>The flag \<open>hasValidGap\<close> after the three checks, for a sorted non-empty array.\<close>

definition hasValidGap :: "position list \<Rightarrow> bool" where
  "hasValidGap positions =
     (pos_x (positions ! 0) \<ge> minGap
      \<or> gapBetween positions
      \<or> (let lastPos = positions ! (length positions - 1)
         in canvas_width - (pos_x lastPos + pos_width lastPos) \<ge> minGap))"

text \<open>\<open>Array.prototype.findIndex\<close>, with \<open>None\<close> for -1.\<close>

fun findIndex :: "('a \<Rightarrow> bool) \<Rightarrow> 'a list \<Rightarrow> nat option" where
  "findIndex P [] = None"
| "findIndex P (x # xs) = (if P x then Some 0 else map_option Suc (findIndex P xs))"

text \<open>\<open>xs.splice(i, 1)\<close>: the array without its element at index \<open>i\<close>.\<close>

definition splice1 :: "nat \<Rightarrow> 'a list \<Rightarrow> 'a list" where
  "splice1 i xs = take i xs @ drop (Suc i) xs"

definition createObstacle :: "(nat \<Rightarrow> rand) \<Rightarrow> game \<Rightarrow> game" where
  "createObstacle rnd s =
     (let numBananas = nat \<lfloor>Math_random rnd (seed s) * 2\<rfloor> + 1;
          s0 = s\<lparr>seed := seed s + 1\<rparr>
      in case placeBananas rnd numBananas ([], s0) of (positions, s1) \<Rightarrow>
           if length positions > 0 then
             (let sorted = sort_key pos_x positions
              in if \<not> hasValidGap sorted \<and> length sorted > 1 then
                   (let removeIndex =
                          nat \<lfloor>Math_random rnd (seed s1) * real (length sorted)\<rfloor>;
                        s2 = s1\<lparr>seed := seed s1 + 1\<rparr>;
                        removedPos = sorted ! removeIndex
                    in case findIndex (\<lambda>obs. o_x obs = pos_x removedPos \<and> o_y obs = spawn_y)
                              (obstacles s2) of
                         None \<Rightarrow> s2
                       | Some indexToRemove \<Rightarrow>
                           s2\<lparr>obstacles := splice1 indexToRemove (obstacles s2)\<rparr>)
                 else s1)
           else s1)"

section \<open>updateObstacles\<close>

definition obstacleSpawnRate :: nat where
  "obstacleSpawnRate = 60"

text \<open>
  What one pass through the loop body does to \<open>obstacles[i]\<close>, before the test that
  removes it: fall, ripen (bonus), blacken and slow down (growing), grow.
\<close>

definition stepObstacle :: "obstacle \<Rightarrow> obstacle" where
  "stepObstacle ob =
     (let o1 = ob\<lparr>o_y := o_y ob + o_speed ob\<rparr>;
          o2 = (if o_isBonus o1 \<and> \<not> o_hasTransformed o1 \<and> o_y o1 \<ge> canvas_height / 2
                then o1\<lparr>o_hasTransformed := True\<rparr> else o1);
          o3 = (if o_isGrowing o2 \<and> \<not> o_hasTransformed o2 \<and> o_y o2 \<ge> canvas_height / 3
                then o2\<lparr>o_hasTransformed := True, o_speed := o_originalSpeed o2 * 0.5\<rparr>
                else o2)
      in if o_isGrowing o3 \<and> o_hasTransformed o3 \<and> o_scale o3 < o_targetScale o3 then
           (let o4 = o3\<lparr>o_scale := o_scale o3 + 0.03\<rparr>
            in if o_scale o4 > o_targetScale o4 then o4\<lparr>o_scale := o_targetScale o4\<rparr>
               else o4)
         else o3)"

text \<open>
  The loop \<open>for (i = obstacles.length - 1; i >= 0; i--)\<close>: the first argument is
  \<open>i + 1\<close>. An obstacle below the canvas is spliced out and scores 10.
\<close>

fun updateObstacles_loop :: "nat \<Rightarrow> game \<Rightarrow> game" where
  "updateObstacles_loop 0 s = s"
| "updateObstacles_loop (Suc i) s =
     (let obs1 = (obstacles s)[i := stepObstacle (obstacles s ! i)];
          s1 = s\<lparr>obstacles := obs1\<rparr>
      in updateObstacles_loop i
           (if o_y (obs1 ! i) > canvas_height
            then s1\<lparr>obstacles := splice1 i obs1, score := score s1 + 10\<rparr>
            else s1))"

definition updateObstacles :: "(nat \<Rightarrow> rand) \<Rightarrow> game \<Rightarrow> game" where
  "updateObstacles rnd s =
     (let s1 = updateObstacles_loop (length (obstacles s)) s;
          s2 = s1\<lparr>frameCount := frameCount s1 + 1\<rparr>
      in if frameCount s2 mod obstacleSpawnRate = 0 then createObstacle rnd s2 else s2)"

section \<open>Particles\<close>

text \<open>
  \<open>createBonusEffect\<close>: twenty sparkles at the given point, each from five random
  numbers (angle, speed, size, decay, colour). The first argument of the loop is the
  number of sparkles still to make.
\<close>

fun createBonusEffect_loop :: "(nat \<Rightarrow> rand) \<Rightarrow> real \<Rightarrow> real \<Rightarrow> nat \<Rightarrow> game \<Rightarrow> game" where
  "createBonusEffect_loop rnd x y 0 s = s"
| "createBonusEffect_loop rnd x y (Suc n) s =
     (let angle = Math_random rnd (seed s) * pi * 2;
          spd = Math_random rnd (seed s + 1) * 4 + 2;
          size = Math_random rnd (seed s + 2) * 4 + 2;
          p = \<lparr> b_x = x, b_y = y, b_vx = cos angle * spd, b_vy = sin angle * spd,
                b_size = size, b_life = 1.0,
                b_decay = Math_random rnd (seed s + 3) * 0.03 + 0.02,
                b_color = (if Math_random rnd (seed s + 4) > 0.5
                           then ''#FFD700'' else ''#FFA500'') \<rparr>
      in createBonusEffect_loop rnd x y n
           (s\<lparr>bonusParticles := bonusParticles s @ [p], seed := seed s + 5\<rparr>))"

definition createBonusEffect :: "(nat \<Rightarrow> rand) \<Rightarrow> real \<Rightarrow> real \<Rightarrow> game \<Rightarrow> game" where
  "createBonusEffect rnd x y s = createBonusEffect_loop rnd x y 20 s"

text \<open>
  \<open>updateBonusParticles\<close>, from the last index down; the first argument is \<open>i + 1\<close>.
\<close>

fun updateBonusParticles_loop :: "nat \<Rightarrow> sparkle list \<Rightarrow> sparkle list" where
  "updateBonusParticles_loop 0 ps = ps"
| "updateBonusParticles_loop (Suc i) ps =
     (let p = ps ! i;
          p' = p\<lparr>b_x := b_x p + b_vx p, b_y := b_y p + b_vy p,
                 b_vx := b_vx p * 0.95, b_vy := b_vy p * 0.95,
                 b_life := b_life p - b_decay p\<rparr>;
          ps1 = ps[i := p']
      in updateBonusParticles_loop i (if b_life p' \<le> 0 then splice1 i ps1 else ps1))"

definition updateBonusParticles :: "game \<Rightarrow> game" where
  "updateBonusParticles s =
     s\<lparr>bonusParticles :=
         updateBonusParticles_loop (length (bonusParticles s)) (bonusParticles s)\<rparr>"

definition colors :: "string list" where
  "colors = [''#FF4500'', ''#FF6600'', ''#FF8C00'', ''#FFD700'', ''#FFA500'', ''#FF0000'',
             ''#8B0000'']"

text \<open>The first loop of \<open>createExplosion\<close>: sixty fire particles.\<close>

fun createExplosion_fire :: "(nat \<Rightarrow> rand) \<Rightarrow> real \<Rightarrow> real \<Rightarrow> nat \<Rightarrow> game \<Rightarrow> game" where
  "createExplosion_fire rnd x y 0 s = s"
| "createExplosion_fire rnd x y (Suc n) s =
     (let angle = Math_random rnd (seed s) * pi * 2;
          spd = Math_random rnd (seed s + 1) * 6 + 1;
          size = Math_random rnd (seed s + 2) * 6 + 2;
          color = colors ! nat \<lfloor>Math_random rnd (seed s + 3) * real (length colors)\<rfloor>;
          p = \<lparr> e_x = x, e_y = y, e_vx = cos angle * spd, e_vy = sin angle * spd,
                e_size = size, e_life = 1.0,
                e_decay = Math_random rnd (seed s + 4) * 0.015 + 0.015,
                e_color = color, e_friction = 0.98, e_isSmoke = False \<rparr>
      in createExplosion_fire rnd x y n
           (s\<lparr>explosionParticles := explosionParticles s @ [p], seed := seed s + 5\<rparr>))"

text \<open>The second loop: twenty smoke particles.\<close>

fun createExplosion_smoke :: "(nat \<Rightarrow> rand) \<Rightarrow> real \<Rightarrow> real \<Rightarrow> nat \<Rightarrow> game \<Rightarrow> game" where
  "createExplosion_smoke rnd x y 0 s = s"
| "createExplosion_smoke rnd x y (Suc n) s =
     (let angle = Math_random rnd (seed s) * pi * 2;
          spd = Math_random rnd (seed s + 1) * 2 + 0.5;
          p = \<lparr> e_x = x, e_y = y, e_vx = cos angle * spd, e_vy = sin angle * spd - 1,
                e_size = Math_random rnd (seed s + 2) * 8 + 4, e_life = 1.0,
                e_decay = Math_random rnd (seed s + 3) * 0.01 + 0.01,
                e_color = ''#333333'', e_friction = 0.95, e_isSmoke = True \<rparr>
      in createExplosion_smoke rnd x y n
           (s\<lparr>explosionParticles := explosionParticles s @ [p], seed := seed s + 4\<rparr>))"

definition createExplosion :: "(nat \<Rightarrow> rand) \<Rightarrow> real \<Rightarrow> real \<Rightarrow> game \<Rightarrow> game" where
  "createExplosion rnd x y s =
     createExplosion_smoke rnd x y 20 (createExplosion_fire rnd x y 60 s)"

text \<open>\<open>updateExplosion\<close>, from the last index down; the first argument is \<open>i + 1\<close>.\<close>

fun updateExplosion_loop :: "nat \<Rightarrow> particle list \<Rightarrow> particle list" where
  "updateExplosion_loop 0 ps = ps"
| "updateExplosion_loop (Suc i) ps =
     (let p = ps ! i;
          p1 = p\<lparr>e_vx := e_vx p * e_friction p, e_vy := e_vy p * e_friction p\<rparr>;
          p2 = p1\<lparr>e_x := e_x p1 + e_vx p1, e_y := e_y p1 + e_vy p1\<rparr>;
          p3 = (if e_isSmoke p2
                then p2\<lparr>e_vy := e_vy p2 - 0.1, e_size := e_size p2 + 0.2\<rparr>
                else p2\<lparr>e_vy := e_vy p2 + 0.3\<rparr>);
          p4 = p3\<lparr>e_life := e_life p3 - e_decay p3\<rparr>;
          ps1 = ps[i := p4]
      in updateExplosion_loop i (if e_life p4 \<le> 0 then splice1 i ps1 else ps1))"

definition updateExplosion :: "game \<Rightarrow> game" where
  "updateExplosion s =
     s\<lparr>explosionParticles :=
         updateExplosion_loop (length (explosionParticles s)) (explosionParticles s)\<rparr>"

section \<open>checkCollision\<close>

definition padding :: real where
  "padding = 8"

record hitbox =
  h_x :: real
  h_y :: real
  h_width :: real
  h_height :: real

definition playerHitbox :: "player \<Rightarrow> hitbox" where
  "playerHitbox p =
     \<lparr> h_x = p_x p + padding, h_y = p_y p + padding,
       h_width = p_width p - padding * 2, h_height = p_height p - padding * 2 \<rparr>"

text \<open>
  The obstacle's hitbox: scaled about its centre, then shrunk by the padding. A scale of
  0 is falsy and reads as 1 (\<open>obstacle.scale || 1.0\<close>).
\<close>

definition obstacleHitbox :: "obstacle \<Rightarrow> hitbox" where
  "obstacleHitbox obstacle =
     (let scale = (if o_scale obstacle = 0 then 1.0 else o_scale obstacle);
          scaledWidth = o_width obstacle * scale;
          scaledHeight = o_height obstacle * scale;
          offsetX = (scaledWidth - o_width obstacle) / 2;
          offsetY = (scaledHeight - o_height obstacle) / 2
      in \<lparr> h_x = o_x obstacle - offsetX + padding, h_y = o_y obstacle - offsetY + padding,
           h_width = scaledWidth - padding * 2, h_height = scaledHeight - padding * 2 \<rparr>)"

text \<open>The overlap test of the two hitboxes.\<close>

definition overlaps :: "player \<Rightarrow> obstacle \<Rightarrow> bool" where
  "overlaps p obstacle =
     (let ph = playerHitbox p; oh = obstacleHitbox obstacle
      in h_x ph < h_x oh + h_width oh \<and> h_x ph + h_width ph > h_x oh
         \<and> h_y ph < h_y oh + h_height oh \<and> h_y ph + h_height ph > h_y oh)"

text \<open>What the function does on an overlap with a ripe bonus banana at index \<open>i\<close>.\<close>

definition collectBonus :: "(nat \<Rightarrow> rand) \<Rightarrow> nat \<Rightarrow> game \<Rightarrow> game" where
  "collectBonus rnd i s =
     (let obstacle = obstacles s ! i;
          s1 = s\<lparr>score := score s + 200, scoreFlashTime := 20\<rparr>;
          s2 = createBonusEffect rnd (o_x obstacle + o_width obstacle / 2)
                 (o_y obstacle + o_height obstacle / 2) s1
      in s2\<lparr>obstacles := splice1 i (obstacles s2)\<rparr>)"

text \<open>
  The scan \<open>for (i = obstacles.length - 1; i >= 0; i--)\<close>; the first argument is
  \<open>i + 1\<close>. It returns at the first obstacle that overlaps the player: false after
  collecting a ripe bonus banana, true for any other obstacle.
\<close>

fun checkCollision_loop :: "(nat \<Rightarrow> rand) \<Rightarrow> nat \<Rightarrow> game \<Rightarrow> bool \<times> game" where
  "checkCollision_loop rnd 0 s = (False, s)"
| "checkCollision_loop rnd (Suc i) s =
     (let obstacle = obstacles s ! i
      in if overlaps (player s) obstacle then
           (if o_isBonus obstacle \<and> o_hasTransformed obstacle
            then (False, collectBonus rnd i s)
            else (True, s))
         else checkCollision_loop rnd i s)"

definition checkCollision :: "(nat \<Rightarrow> rand) \<Rightarrow> game \<Rightarrow> bool \<times> game" where
  "checkCollision rnd s = checkCollision_loop rnd (length (obstacles s)) s"

section \<open>gameLoop and resetGame\<close>

text \<open>
  Two drawing functions touch the state: \<open>drawJungleBackground\<close> draws forty blades
  of grass from three random numbers each, and \<open>drawScore\<close> counts the score flash
  down. The other drawing functions only read.
\<close>

definition drawJungleBackground :: "game \<Rightarrow> game" where
  "drawJungleBackground s = s\<lparr>seed := seed s + 40 * 3\<rparr>"

definition drawScore :: "game \<Rightarrow> game" where
  "drawScore s =
     (if scoreFlashTime s > 0 then s\<lparr>scoreFlashTime := scoreFlashTime s - 1\<rparr> else s)"

text \<open>
  The three updates of a frame of play, up to the call of \<open>checkCollision\<close>.
\<close>

definition updates :: "(nat \<Rightarrow> rand) \<Rightarrow> rect \<Rightarrow> game \<Rightarrow> game" where
  "updates rnd canvasRect s =
     updateBonusParticles (updateObstacles rnd (updatePlayer canvasRect s))"

text \<open>What \<open>gameLoop\<close> does when \<open>checkCollision\<close> has returned true.\<close>

definition fatalCollision :: "(nat \<Rightarrow> rand) \<Rightarrow> game \<Rightarrow> game" where
  "fatalCollision rnd s =
     (let s1 = s\<lparr>gameOver := True\<rparr>;
          s2 = (if score s1 > highScore s1
                then s1\<lparr>highScore := score s1, stored := Some (score s1)\<rparr>
                else s1)
      in createExplosion rnd (p_x (player s2) + p_width (player s2) / 2)
           (p_y (player s2) + p_height (player s2) / 2) s2)"

text \<open>
  One call of \<open>gameLoop\<close>, that is, one frame. The host calls it again through
  \<open>requestAnimationFrame\<close>; \<open>canvasRect\<close> is what \<open>getBoundingClientRect\<close> returns
  during the frame.
\<close>

definition gameLoop :: "(nat \<Rightarrow> rand) \<Rightarrow> rect \<Rightarrow> game \<Rightarrow> game" where
  "gameLoop rnd canvasRect s =
     (let s0 = drawJungleBackground s
      in if gameOver s0 then
           (let s1 = drawScore (updateExplosion s0)
            in if explosionParticles s1 = [] \<or> showGameOverText s1
               then s1\<lparr>showGameOverText := True\<rparr>
               else s1)
         else
           (case checkCollision rnd (updates rnd canvasRect s0) of (hit, s1) \<Rightarrow>
              if hit then fatalCollision rnd s1 else drawScore s1))"

text \<open>The assignments of \<open>resetGame\<close>, before it calls \<open>gameLoop\<close>.\<close>

definition resetFields :: "game \<Rightarrow> game" where
  "resetFields s =
     s\<lparr>player := (player s)\<lparr>p_x := canvas_width / 2 - 35, p_dx := 0,
                              p_animationFrame := 0\<rparr>,
       obstacles := [], frameCount := 0, score := 0, scoreFlashTime := 0,
       gameOver := False, explosionParticles := [], bonusParticles := [],
       showGameOverText := False\<rparr>"

definition resetGame :: "(nat \<Rightarrow> rand) \<Rightarrow> rect \<Rightarrow> game \<Rightarrow> game" where
  "resetGame rnd canvasRect s = gameLoop rnd canvasRect (resetFields s)"

section \<open>Event listeners\<close>

text \<open>The rectangle of the restart button, as both listeners compute it.\<close>

definition insideRestartButton :: "real \<Rightarrow> real \<Rightarrow> bool" where
  "insideRestartButton x y =
     (let buttonWidth = 250;
          buttonHeight = 60;
          buttonX = canvas_width / 2 - buttonWidth / 2;
          buttonY = canvas_height / 2 + 60
      in x \<ge> buttonX \<and> x \<le> buttonX + buttonWidth \<and> y \<ge> buttonY \<and> y \<le> buttonY + buttonHeight)"

text \<open>
  A point of the page in canvas coordinates. For a rectangle of width or height 0 the
  source computes an infinite coordinate or NaN, and every test of the button fails; in
  the model the coordinate is 0, for which they fail as well.
\<close>

definition toCanvas :: "real \<Rightarrow> real \<Rightarrow> rect \<Rightarrow> real \<times> real" where
  "toCanvas clientX clientY r =
     ((clientX - r_left r) * (canvas_width / r_width r),
      (clientY - r_top r) * (canvas_height / r_height r))"

text \<open>The click listener of the canvas.\<close>

definition click :: "(nat \<Rightarrow> rand) \<Rightarrow> real \<Rightarrow> real \<Rightarrow> rect \<Rightarrow> game \<Rightarrow> game" where
  "click rnd clientX clientY r s =
     (if \<not> gameOver s then s
      else case toCanvas clientX clientY r of (clickX, clickY) \<Rightarrow>
        if insideRestartButton clickX clickY then resetGame rnd r s else s)"

text \<open>The touch listeners of the document; the point is that of \<open>e.touches[0]\<close>.\<close>

definition touchstart :: "(nat \<Rightarrow> rand) \<Rightarrow> real \<Rightarrow> real \<Rightarrow> rect \<Rightarrow> game \<Rightarrow> game" where
  "touchstart rnd clientX clientY r s =
     (if gameOver s then
        (case toCanvas clientX clientY r of (touchX, touchY) \<Rightarrow>
           if insideRestartButton touchX touchY then resetGame rnd r s else s)
      else s\<lparr>touchStartX := clientX, touchCurrentX := clientX, isTouching := True\<rparr>)"

definition touchmove :: "real \<Rightarrow> game \<Rightarrow> game" where
  "touchmove clientX s =
     (if gameOver s then s
      else if isTouching s then s\<lparr>touchCurrentX := clientX\<rparr> else s)"

definition touchend :: "game \<Rightarrow> game" where
  "touchend s =
     (if gameOver s then s
      else s\<lparr>isTouching := False, touchStartX := 0, touchCurrentX := 0\<rparr>)"

definition keydown :: "string \<Rightarrow> game \<Rightarrow> game" where
  "keydown k s = s\<lparr>keys := (keys s)(k := True)\<rparr>"

definition keyup :: "string \<Rightarrow> game \<Rightarrow> game" where
  "keyup k s = s\<lparr>keys := (keys s)(k := False)\<rparr>"

section \<open>Runs of the program\<close>

text \<open>What the host can make happen: an animation frame or one of the input events.\<close>

datatype event =
    Frame rect
  | KeyDown string
  | KeyUp string
  | TouchStart real real rect
  | TouchMove real
  | TouchEnd
  | Click real real rect

fun handle :: "(nat \<Rightarrow> rand) \<Rightarrow> event \<Rightarrow> game \<Rightarrow> game" where
  "handle rnd (Frame r) s = gameLoop rnd r s"
| "handle rnd (KeyDown k) s = keydown k s"
| "handle rnd (KeyUp k) s = keyup k s"
| "handle rnd (TouchStart cx cy r) s = touchstart rnd cx cy r s"
| "handle rnd (TouchMove cx) s = touchmove cx s"
| "handle rnd TouchEnd s = touchend s"
| "handle rnd (Click cx cy r) s = click rnd cx cy r s"

text \<open>The state after a sequence of events, the first event first.\<close>

fun run :: "(nat \<Rightarrow> rand) \<Rightarrow> event list \<Rightarrow> game \<Rightarrow> game" where
  "run rnd [] s = s"
| "run rnd (ev # evs) s = run rnd evs (handle rnd ev s)"

section \<open>The run states of the specification\<close>

text \<open>
  The specification names three run states: \<open>Playing\<close>; \<open>Exploding\<close>, from the fatal
  collision on; and \<open>GameOverDisplayed\<close>, once the pool of explosion particles is
  empty. In the source the first step is the flag \<open>gameOver\<close>, and the second is the
  flag \<open>showGameOverText\<close>, which \<open>gameLoop\<close> sets when it finds the pool empty and
  from which on it draws the game-over text and the restart button.
\<close>

datatype run_state = Playing | Exploding | GameOverDisplayed

definition runState :: "game \<Rightarrow> run_state" where
  "runState s =
     (if \<not> gameOver s then Playing
      else if showGameOverText s then GameOverDisplayed
      else Exploding)"

section \<open>Predicates and example states used below\<close>

text \<open>The sequence of random numbers that are all 0.\<close>

definition rnd_zero :: "nat \<Rightarrow> rand" where
  "rnd_zero k = rand_zero"

text \<open>A canvas shown at its logical size in the corner of the page.\<close>

definition rect_canvas :: rect where
  "rect_canvas = \<lparr> r_left = 0, r_top = 0, r_width = 800, r_height = 600 \<rparr>"

text \<open>The player two pixels from its rightmost position, with the right arrow held.\<close>

definition right_edge_state :: game where
  "right_edge_state =
     (initial None)\<lparr>player := initial_player\<lparr>p_x := 728\<rparr>,
                     keys := (\<lambda>k. k = ''ArrowRight'')\<rparr>"

text \<open>An obstacle as \<open>createObstacle\<close> pushes it: at the top, inside the canvas, falling by 2 to 5 a frame, not yet transformed, of at most one special kind.\<close>

definition fresh :: "obstacle \<Rightarrow> bool" where
  "fresh ob =
     (0 \<le> o_x ob \<and> o_x ob < canvas_width - 30 \<and> o_y ob = spawn_y \<and> o_width ob = 30
      \<and> o_height ob = 20 \<and> 2 \<le> o_speed ob \<and> o_speed ob < 5
      \<and> o_originalSpeed ob = o_speed ob \<and> \<not> (o_isBonus ob \<and> o_isGrowing ob)
      \<and> \<not> o_hasTransformed ob \<and> o_scale ob = 1.5 \<and> o_targetScale ob = 4.5)"

text \<open>The entry of \<open>positions\<close> that is pushed together with an obstacle.\<close>

definition positionOf :: "obstacle \<Rightarrow> position" where
  "positionOf ob = \<lparr> pos_x = o_x ob, pos_width = o_width ob \<rparr>"

text \<open>The second state is the first with a batch of obstacles appended and more random numbers drawn.\<close>

definition spawned :: "game \<Rightarrow> obstacle list \<Rightarrow> game \<Rightarrow> bool" where
  "spawned s batch s' = (\<exists>k. s' = s\<lparr>obstacles := obstacles s @ batch, seed := k\<rparr>)"

text \<open>
  The span of width \<open>minGap\<close> that starts at \<open>a\<close> lies on the canvas and meets the
  footprint (from \<open>x\<close> to \<open>x + width\<close>) of no obstacle of the batch.
\<close>

definition freeSpan :: "real \<Rightarrow> obstacle list \<Rightarrow> bool" where
  "freeSpan a batch =
     (0 \<le> a \<and> a + minGap \<le> canvas_width
      \<and> list_all (\<lambda>ob. o_x ob + o_width ob \<le> a \<or> a + minGap \<le> o_x ob) batch)"

text \<open>The obstacles that are still on the canvas after one step each, and those that have left it.\<close>

definition survivors :: "obstacle list \<Rightarrow> obstacle list" where
  "survivors obs = filter (\<lambda>ob. \<not> o_y ob > canvas_height) (map stepObstacle obs)"

definition leavers :: "obstacle list \<Rightarrow> obstacle list" where
  "leavers obs = filter (\<lambda>ob. o_y ob > canvas_height) (map stepObstacle obs)"

text \<open>
  What holds of a bonus banana between frames: it is not also a growing one, it does not
  move upwards, and it is ripe exactly when it is at or below half the canvas height.
\<close>

definition bonusRipe :: "obstacle \<Rightarrow> bool" where
  "bonusRipe ob =
     (o_isBonus ob \<longrightarrow>
        \<not> o_isGrowing ob \<and> 0 \<le> o_speed ob
        \<and> (o_hasTransformed ob \<longleftrightarrow> canvas_height / 2 \<le> o_y ob))"

text \<open>The scale lies between its start and its cap, and the cap is 4.5.\<close>

definition scaleBounded :: "obstacle \<Rightarrow> bool" where
  "scaleBounded ob = (1.5 \<le> o_scale ob \<and> o_scale ob \<le> 4.5 \<and> o_targetScale ob = 4.5)"

text \<open>An obstacle that is not a growing one has the size and the scale it was made with.\<close>

definition plainScale :: "obstacle \<Rightarrow> bool" where
  "plainScale ob =
     (\<not> o_isGrowing ob \<longrightarrow> o_scale ob = 1.5 \<and> o_width ob = 30 \<and> o_height ob = 20)"

text \<open>A bonus banana two pixels above half the canvas height.\<close>

definition ripening_bonus :: obstacle where
  "ripening_bonus =
     \<lparr> o_x = 100, o_y = 298, o_width = 30, o_height = 20, o_speed = 3,
       o_originalSpeed = 3, o_isBonus = True, o_hasTransformed = False,
       o_isGrowing = False, o_scale = 1.5, o_targetScale = 4.5, o_rotation = 0 \<rparr>"

text \<open>A growing banana, already black, one step below its cap.\<close>

definition nearly_grown :: obstacle where
  "nearly_grown =
     \<lparr> o_x = 600, o_y = 350, o_width = 30, o_height = 20, o_speed = 1.5,
       o_originalSpeed = 3, o_isBonus = False, o_hasTransformed = True,
       o_isGrowing = True, o_scale = 4.49, o_targetScale = 4.5, o_rotation = 0 \<rparr>"

text \<open>The loaded game with these two obstacles on the canvas.\<close>

definition two_bananas_state :: game where
  "two_bananas_state = (initial None)\<lparr>obstacles := [ripening_bonus, nearly_grown]\<rparr>"

text \<open>
  A sequence of random numbers for which \<open>createObstacle\<close> places two bananas: all are
  1/2 but the seventh, which is 1/10 and gives the second banana its x.
\<close>

definition rnd_two :: "nat \<Rightarrow> rand" where
  "rnd_two k = (if k = 6 then rand_tenth else rand_half)"

text \<open>The state in which \<open>gameLoop\<close> calls \<open>checkCollision\<close>.\<close>

definition scanState :: "(nat \<Rightarrow> rand) \<Rightarrow> rect \<Rightarrow> game \<Rightarrow> game" where
  "scanState rnd canvasRect s = updates rnd canvasRect (drawJungleBackground s)"

text \<open>
  The obstacle at index \<open>i\<close> is the first that the scan of \<open>checkCollision\<close>, which
  runs from the last index down, finds to overlap the player.
\<close>

definition firstOverlap :: "game \<Rightarrow> nat \<Rightarrow> bool" where
  "firstOverlap s i =
     (i < length (obstacles s) \<and> overlaps (player s) (obstacles s ! i)
      \<and> list_all (\<lambda>ob. \<not> overlaps (player s) ob) (drop (Suc i) (obstacles s)))"

text \<open>A green banana and a ripe bonus banana, both about to touch the player.\<close>

definition green_banana :: obstacle where
  "green_banana =
     \<lparr> o_x = 390, o_y = 480, o_width = 30, o_height = 20, o_speed = 3,
       o_originalSpeed = 3, o_isBonus = False, o_hasTransformed = False,
       o_isGrowing = False, o_scale = 1.5, o_targetScale = 4.5, o_rotation = 0 \<rparr>"

definition ripe_bonus :: obstacle where
  "ripe_bonus =
     \<lparr> o_x = 380, o_y = 487, o_width = 30, o_height = 20, o_speed = 3,
       o_originalSpeed = 3, o_isBonus = True, o_hasTransformed = True,
       o_isGrowing = False, o_scale = 1.5, o_targetScale = 4.5, o_rotation = 0 \<rparr>"

text \<open>
  A game with score 540 and high score 300 in which both bananas reach the player in the
  next frame; the scan meets the bonus banana first.
\<close>

definition bonus_first_state :: game where
  "bonus_first_state =
     (initial (Some 300))\<lparr>score := 540, obstacles := [green_banana, ripe_bonus]\<rparr>"

text \<open>The same with the green banana alone.\<close>

definition crash_state :: game where
  "crash_state = (initial (Some 300))\<lparr>score := 540, obstacles := [green_banana]\<rparr>"

text \<open>
  The four fields of the player that no function assigns have the values of the object
  literal \<open>player\<close>.
\<close>

definition fixedFields :: "player \<Rightarrow> bool" where
  "fixedFields p =
     (p_y p = canvas_height - 120 \<and> p_width p = 70 \<and> p_height p = 45 \<and> p_speed p = 6)"

text \<open>The obstacle of the scenario: ten pixels above the bottom edge, falling by 5.\<close>

definition falling_banana :: obstacle where
  "falling_banana =
     \<lparr> o_x = 100, o_y = 590, o_width = 30, o_height = 20, o_speed = 5,
       o_originalSpeed = 5, o_isBonus = False, o_hasTransformed = False,
       o_isGrowing = False, o_scale = 1.5, o_targetScale = 4.5, o_rotation = 0 \<rparr>"

definition falling_state :: game where
  "falling_state = (initial None)\<lparr>obstacles := [falling_banana]\<rparr>"

text \<open>The frame after the crash: the game is over and the explosion has just started.\<close>

definition exploding_state :: game where
  "exploding_state = gameLoop rnd_zero rect_canvas crash_state"

section \<open>Properties\<close>

subsection \<open>The player stays on the canvas\<close>

lemma movePlayer_x_range:
  assumes "p_width (player s) \<le> canvas_width"
  shows "0 \<le> p_x (player (movePlayer dx s))"
    and "p_x (player (movePlayer dx s)) \<le> canvas_width - p_width (player s)"
  using assms by (simp_all add: movePlayer_def Let_def)

lemma movePlayer_width [simp]: "p_width (player (movePlayer dx s)) = p_width (player s)"
  by (simp add: movePlayer_def Let_def)

text \<open>
  C5. After every player-update step, whatever keys are held, wherever the finger is and
  whatever the velocity that results, the player's x lies between 0 and the canvas width
  less the player's width. The player is no wider than the canvas (it is 70 wide on a
  canvas of 800).
\<close>

theorem updatePlayer_x_clamped:
  assumes "p_width (player s) \<le> canvas_width"
  shows "0 \<le> p_x (player (updatePlayer canvasRect s))
       \<and> p_x (player (updatePlayer canvasRect s)) \<le> canvas_width - p_width (player s)
       \<and> 0 \<le> p_x (player (movePlayer dx s))
       \<and> p_x (player (movePlayer dx s)) \<le> canvas_width - p_width (player s)"
  using movePlayer_x_range [OF assms] by (simp add: updatePlayer_def)

theorem updatePlayer_x_clamped_witness:
  "p_width (player right_edge_state) \<le> canvas_width
   \<and> 0 \<le> p_x (player (updatePlayer rect_canvas right_edge_state))
   \<and> p_x (player (updatePlayer rect_canvas right_edge_state))
       \<le> canvas_width - p_width (player right_edge_state)
   \<and> 0 \<le> p_x (player (movePlayer (- 1000) right_edge_state))
   \<and> p_x (player (movePlayer (- 1000) right_edge_state))
       \<le> canvas_width - p_width (player right_edge_state)"
proof -
  have w: "p_width (player right_edge_state) \<le> canvas_width"
    by (simp add: right_edge_state_def initial_def initial_player_def canvas_width_def)
  show ?thesis
    using w updatePlayer_x_clamped [OF w, of rect_canvas "- 1000"] by simp
qed

subsection \<open>Lists\<close>

lemma splice1_update:
  "n < length xs \<Longrightarrow> splice1 n (xs[n := v]) = take n xs @ drop (Suc n) xs"
  by (simp add: splice1_def)

lemma drop_update_same:
  "n < length xs \<Longrightarrow> drop n (xs[n := v]) = v # drop (Suc n) xs"
  by (simp add: upd_conv_take_nth_drop)

lemma set_splice1: "set (splice1 i xs) \<subseteq> set xs"
  unfolding splice1_def using set_take_subset [of i xs] set_drop_subset [of "Suc i" xs]
  by auto

subsection \<open>The loop of updateObstacles\<close>

text \<open>
  The loop steps every obstacle once, drops those that are then below the canvas and
  scores 10 for each of them.
\<close>

lemma updateObstacles_loop_eq:
  "n \<le> length (obstacles s) \<Longrightarrow>
   updateObstacles_loop n s =
     s\<lparr>obstacles :=
         filter (\<lambda>ob. \<not> o_y ob > canvas_height) (map stepObstacle (take n (obstacles s)))
         @ drop n (obstacles s),
       score :=
         score s + 10 * int (length (filter (\<lambda>ob. o_y ob > canvas_height)
                                       (map stepObstacle (take n (obstacles s)))))\<rparr>"
proof (induction n arbitrary: s)
  case 0
  then show ?case by simp
next
  case (Suc n)
  then have n: "n < length (obstacles s)" by simp
  let ?obs = "obstacles s"
  let ?v = "stepObstacle (?obs ! n)"
  have tk: "take (Suc n) ?obs = take n ?obs @ [?obs ! n]"
    using n by (simp add: take_Suc_conv_app_nth)
  show ?case
  proof (cases "o_y ?v > canvas_height")
    case True
    let ?s' = "s\<lparr>obstacles := take n ?obs @ drop (Suc n) ?obs, score := score s + 10\<rparr>"
    have "updateObstacles_loop (Suc n) s = updateObstacles_loop n ?s'"
      using n True by (simp add: Let_def splice1_update)
    also have "\<dots> =
        ?s'\<lparr>obstacles :=
              filter (\<lambda>ob. \<not> o_y ob > canvas_height)
                (map stepObstacle (take n (obstacles ?s')))
              @ drop n (obstacles ?s'),
            score :=
              score ?s' + 10 * int (length (filter (\<lambda>ob. o_y ob > canvas_height)
                                             (map stepObstacle (take n (obstacles ?s')))))\<rparr>"
      using n by (intro Suc.IH) simp
    finally show ?thesis using n True by (simp add: tk min_def)
  next
    case False
    let ?s' = "s\<lparr>obstacles := ?obs[n := ?v]\<rparr>"
    have "updateObstacles_loop (Suc n) s = updateObstacles_loop n ?s'"
      using n False by (simp add: Let_def)
    also have "\<dots> =
        ?s'\<lparr>obstacles :=
              filter (\<lambda>ob. \<not> o_y ob > canvas_height)
                (map stepObstacle (take n (obstacles ?s')))
              @ drop n (obstacles ?s'),
            score :=
              score ?s' + 10 * int (length (filter (\<lambda>ob. o_y ob > canvas_height)
                                             (map stepObstacle (take n (obstacles ?s')))))\<rparr>"
      using n by (intro Suc.IH) simp
    finally show ?thesis using n False by (simp add: tk drop_update_same)
  qed
qed

subsection \<open>createObstacle\<close>

lemma Math_random_range: "0 \<le> Math_random rnd k" "Math_random rnd k < 1"
  using Rep_rand [of "rnd k"] by (simp_all add: Math_random_def)

lemma spawned_seed: "spawned s [] (s\<lparr>seed := k\<rparr>)"
  unfolding spawned_def by (rule exI [of _ k]) simp

lemma spawned_same: "spawned s [] s"
  unfolding spawned_def by (rule exI [of _ "seed s"]) simp

lemma spawned_trans:
  assumes "spawned s b1 s1" and "spawned s1 b2 s2"
  shows "spawned s (b1 @ b2) s2"
proof -
  from assms(1) obtain k1 where s1: "s1 = s\<lparr>obstacles := obstacles s @ b1, seed := k1\<rparr>"
    unfolding spawned_def ..
  from assms(2) obtain k2 where s2: "s2 = s1\<lparr>obstacles := obstacles s1 @ b2, seed := k2\<rparr>"
    unfolding spawned_def ..
  have "s2 = s\<lparr>obstacles := obstacles s @ b1 @ b2, seed := k2\<rparr>"
    unfolding s2 s1 by simp
  then show ?thesis unfolding spawned_def by auto
qed

lemma spawned_obstacles: "spawned s batch s' \<Longrightarrow> obstacles s' = obstacles s @ batch"
  unfolding spawned_def by auto

lemma attempt_valid:
  assumes "positionValid (Math_random rnd (seed s) * (canvas_width - 30)) 30 ps"
  shows "\<exists>ob k. fresh ob \<and>
     attempt rnd (ps, s) =
       (True, ps @ [positionOf ob], s\<lparr>obstacles := obstacles s @ [ob], seed := k\<rparr>)"
proof -
  let ?x = "Math_random rnd (seed s) * (canvas_width - 30)"
  let ?spd = "Math_random rnd (seed s + 1) * 3 + 2"
  have x: "0 \<le> ?x" "?x < canvas_width - 30"
    using Math_random_range [of rnd "seed s"] by (simp_all add: canvas_width_def)
  have sp: "2 \<le> ?spd" "?spd < 5"
    using Math_random_range [of rnd "seed s + 1"] by simp_all
  have fr: "fresh (newObstacle ?x 30 ?spd b (\<not> b \<and> g) rot)" for b g rot
    using x sp by (simp add: fresh_def newObstacle_def)
  show ?thesis
  proof (cases "Math_random rnd (seed s + 2) < 0.2")
    case True
    have "attempt rnd (ps, s) =
       (True, ps @ [positionOf (newObstacle ?x 30 ?spd True (\<not> True \<and> False) (Math_random rnd (seed s + 3) * pi * 2))],
         s\<lparr>obstacles := obstacles s @ [newObstacle ?x 30 ?spd True (\<not> True \<and> False) (Math_random rnd (seed s + 3) * pi * 2)], seed := seed s + 4\<rparr>)"
      using assms True by (simp add: attempt_def Let_def positionOf_def newObstacle_def eval_nat_numeral)
    then show ?thesis using fr by blast
  next
    case False
    have "attempt rnd (ps, s) =
       (True, ps @ [positionOf (newObstacle ?x 30 ?spd False (\<not> False \<and> Math_random rnd (seed s + 3) < 0.15) (Math_random rnd (seed s + 4) * pi * 2))],
         s\<lparr>obstacles := obstacles s @ [newObstacle ?x 30 ?spd False (\<not> False \<and> Math_random rnd (seed s + 3) < 0.15) (Math_random rnd (seed s + 4) * pi * 2)], seed := seed s + 5\<rparr>)"
      using assms False by (simp add: attempt_def Let_def positionOf_def newObstacle_def eval_nat_numeral)
    then show ?thesis using fr by blast
  qed
qed

lemma attempt_invalid:
  assumes "\<not> positionValid (Math_random rnd (seed s) * (canvas_width - 30)) 30 ps"
  shows "attempt rnd (ps, s) = (False, ps, s\<lparr>seed := seed s + 2\<rparr>)"
  using assms by (simp add: attempt_def Let_def)

lemma attempt_spawned:
  assumes "attempt rnd (ps, s) = (placed, ps', s')"
  shows "\<exists>batch. spawned s batch s' \<and> ps' = ps @ map positionOf batch
           \<and> list_all fresh batch \<and> length batch \<le> 1"
proof (cases "positionValid (Math_random rnd (seed s) * (canvas_width - 30)) 30 ps")
  case True
  from attempt_valid [OF True] assms obtain ob k where
    "fresh ob" "ps' = ps @ [positionOf ob]" "s' = s\<lparr>obstacles := obstacles s @ [ob], seed := k\<rparr>"
    by auto
  then show ?thesis
    by (intro exI [of _ "[ob]"]) (auto simp add: spawned_def)
next
  case False
  from attempt_invalid [OF False] assms show ?thesis
    by (intro exI [of _ "[]"]) (auto simp add: spawned_def)
qed

lemma placeBanana_spawned:
  "placeBanana rnd n (ps, s) = (ps', s') \<Longrightarrow>
   \<exists>batch. spawned s batch s' \<and> ps' = ps @ map positionOf batch
           \<and> list_all fresh batch \<and> length batch \<le> 1"
proof (induction n arbitrary: ps s)
  case 0
  then have "spawned s [] s'" by (simp add: spawned_same)
  with 0 show ?case by (intro exI [of _ "[]"]) simp
next
  case (Suc n)
  obtain placed ps1 s1 where a: "attempt rnd (ps, s) = (placed, ps1, s1)"
    by (metis prod_cases3)
  from attempt_spawned [OF a] obtain b1 where b1: "spawned s b1 s1"
    "ps1 = ps @ map positionOf b1" "list_all fresh b1" "length b1 \<le> 1" by blast
  show ?case
  proof (cases placed)
    case True
    with Suc.prems a have "ps' = ps1" "s' = s1" by simp_all
    with b1 show ?thesis by blast
  next
    case False
    have "b1 = []"
    proof (cases "positionValid (Math_random rnd (seed s) * (canvas_width - 30)) 30 ps")
      case True
      from attempt_valid [OF True] a False show ?thesis by auto
    next
      case F: False
      from attempt_invalid [OF F] a b1(2) show ?thesis by simp
    qed
    from False Suc.prems a have "placeBanana rnd n (ps1, s1) = (ps', s')" by simp
    from Suc.IH [OF this] obtain b2 where b2: "spawned s1 b2 s'"
      "ps' = ps1 @ map positionOf b2" "list_all fresh b2" "length b2 \<le> 1" by blast
    from spawned_trans [OF b1(1) b2(1)] b1 b2 \<open>b1 = []\<close> show ?thesis
      by (intro exI [of _ b2]) simp
  qed
qed

lemma placeBananas_spawned:
  "placeBananas rnd n (ps, s) = (ps', s') \<Longrightarrow>
   \<exists>batch. spawned s batch s' \<and> ps' = ps @ map positionOf batch
           \<and> list_all fresh batch \<and> length batch \<le> n"
proof (induction n arbitrary: ps s)
  case 0
  then have "spawned s [] s'" by (simp add: spawned_same)
  with 0 show ?case by (intro exI [of _ "[]"]) simp
next
  case (Suc n)
  obtain ps1 s1 where a: "placeBanana rnd maxAttempts (ps, s) = (ps1, s1)"
    by (metis surj_pair)
  from placeBanana_spawned [OF a] obtain b1 where b1: "spawned s b1 s1"
    "ps1 = ps @ map positionOf b1" "list_all fresh b1" "length b1 \<le> 1" by blast
  from Suc.prems a have "placeBananas rnd n (ps1, s1) = (ps', s')" by simp
  from Suc.IH [OF this] obtain b2 where b2: "spawned s1 b2 s'"
      "ps' = ps1 @ map positionOf b2" "list_all fresh b2" "length b2 \<le> n" by blast
  from spawned_trans [OF b1(1) b2(1)] b1 b2 show ?case
    by (intro exI [of _ "b1 @ b2"]) simp
qed

lemma hasValidGap_small:
  assumes "list_all fresh batch" and "batch \<noteq> []" and "length batch \<le> 2"
  shows "hasValidGap (sort_key pos_x (map positionOf batch))"
proof -
  from assms(2,3) consider a where "batch = [a]" | a b where "batch = [a, b]"
    by (cases batch; cases "tl batch"; cases "tl (tl batch)") auto
  then show ?thesis
  proof cases
    case 1
    with assms(1) show ?thesis
      by (auto simp add: hasValidGap_def fresh_def positionOf_def minGap_def canvas_width_def)
  next
    case 2
    with assms(1) show ?thesis
      by (auto simp add: hasValidGap_def fresh_def positionOf_def minGap_def canvas_width_def Let_def)
  qed
qed

lemma numBananas_le: "nat \<lfloor>Math_random rnd k * 2\<rfloor> + 1 \<le> 2"
proof -
  have "Math_random rnd k * 2 < 2" using Math_random_range(2) [of rnd k] by simp
  then have "\<lfloor>Math_random rnd k * 2\<rfloor> < 2" by (simp add: floor_less_iff)
  then have "nat \<lfloor>Math_random rnd k * 2\<rfloor> < 2" by linarith
  then show ?thesis by simp
qed

lemma createObstacle_spawned:
  "\<exists>batch. spawned s batch (createObstacle rnd s) \<and> list_all fresh batch \<and> length batch \<le> 2"
proof -
  let ?n = "nat \<lfloor>Math_random rnd (seed s) * 2\<rfloor> + 1"
  let ?s0 = "s\<lparr>seed := seed s + 1\<rparr>"
  obtain ps s1 where p: "placeBananas rnd ?n ([], ?s0) = (ps, s1)"
    by (metis surj_pair)
  from placeBananas_spawned [OF p] obtain batch where b: "spawned ?s0 batch s1"
    "ps = map positionOf batch" "list_all fresh batch" "length batch \<le> ?n" by auto
  have len: "length batch \<le> 2" using b(4) numBananas_le [of rnd "seed s"] by linarith
  have "spawned s [] ?s0" by (rule spawned_seed)
  from spawned_trans [OF this b(1)] have sp: "spawned s batch s1" by simp
  have "createObstacle rnd s = s1"
  proof (cases "batch = []")
    case True
    with p b(2) show ?thesis by (simp add: createObstacle_def Let_def)
  next
    case False
    from hasValidGap_small [OF b(3) False len] p b(2) show ?thesis
      by (simp add: createObstacle_def Let_def)
  qed
  with sp b(3) len show ?thesis by blast
qed

lemma freeSpan_small:
  assumes "list_all fresh batch" and "length batch \<le> 2"
  shows "\<exists>a. freeSpan a batch"
proof -
  from assms(2) consider "batch = []" | a where "batch = [a]" | a b where "batch = [a, b]"
    by (cases batch; cases "tl batch"; cases "tl (tl batch)") auto
  then show ?thesis
  proof cases
    case 1
    then show ?thesis
      by (intro exI [of _ 0]) (simp add: freeSpan_def minGap_def canvas_width_def)
  next
    case 2
    with assms(1) show ?thesis
      by (intro exI [of _ "if minGap \<le> o_x a then 0 else o_x a + 30"])
         (simp add: freeSpan_def fresh_def minGap_def canvas_width_def)
  next
    case 3
    with assms(1) have fa: "fresh a" and fb: "fresh b" by simp_all
    have two: "\<exists>c. freeSpan c [p, q]" if "fresh p" "fresh q" "o_x p \<le> o_x q" for p q
    proof -
      let ?c = "if minGap \<le> o_x p then 0
                else if o_x p + 30 + minGap \<le> o_x q then o_x p + 30 else o_x q + 30"
      have "freeSpan ?c [p, q]"
        using that by (simp add: freeSpan_def fresh_def minGap_def canvas_width_def)
      then show ?thesis ..
    qed
    show ?thesis
    proof (cases "o_x a \<le> o_x b")
      case True
      from two [OF fa fb True] 3 show ?thesis by simp
    next
      case False
      then have "o_x b \<le> o_x a" by simp
      from two [OF fb fa this] obtain c where "freeSpan c [b, a]" ..
      then have "freeSpan c [a, b]" by (auto simp add: freeSpan_def)
      with 3 show ?thesis by blast
    qed
  qed
qed

text \<open>
  C1. Every call of \<open>createObstacle\<close> appends a batch of at most two obstacles, and
  after its check of the gaps (and the removal that would follow it) some span of width
  \<open>minGap\<close>, the width of the player, lies on the canvas and meets the footprint of no
  obstacle of the batch. This holds for every batch, those of two obstacles included.
\<close>

theorem createObstacle_leaves_gap:
  "\<exists>batch a. obstacles (createObstacle rnd s) = obstacles s @ batch \<and> length batch \<le> 2
     \<and> freeSpan a batch"
proof -
  obtain batch where b: "spawned s batch (createObstacle rnd s)" "list_all fresh batch"
    "length batch \<le> 2" using createObstacle_spawned by blast
  from freeSpan_small [OF b(2,3)] obtain a where "freeSpan a batch" ..
  moreover have "obstacles (createObstacle rnd s) = obstacles s @ batch"
    using b(1) by (rule spawned_obstacles)
  ultimately show ?thesis using b(3) by blast
qed

subsection \<open>Particles and the collision scan\<close>

lemma createBonusEffect_loop_eq:
  "\<exists>news. createBonusEffect_loop rnd x y n s =
      s\<lparr>bonusParticles := bonusParticles s @ news, seed := seed s + 5 * n\<rparr>
    \<and> length news = n \<and> list_all (\<lambda>p. b_x p = x \<and> b_y p = y \<and> b_life p = 1) news"
proof (induction n arbitrary: s)
  case 0
  show ?case by (rule exI [of _ "[]"]) simp
next
  case (Suc n)
  let ?p = "\<lparr> b_x = x, b_y = y,
               b_vx = cos (Math_random rnd (seed s) * pi * 2) * (Math_random rnd (seed s + 1) * 4 + 2),
               b_vy = sin (Math_random rnd (seed s) * pi * 2) * (Math_random rnd (seed s + 1) * 4 + 2),
               b_size = Math_random rnd (seed s + 2) * 4 + 2, b_life = 1.0,
               b_decay = Math_random rnd (seed s + 3) * 0.03 + 0.02,
               b_color = (if Math_random rnd (seed s + 4) > 0.5 then ''#FFD700'' else ''#FFA500'') \<rparr>"
  let ?s1 = "s\<lparr>bonusParticles := bonusParticles s @ [?p], seed := seed s + 5\<rparr>"
  have step: "createBonusEffect_loop rnd x y (Suc n) s = createBonusEffect_loop rnd x y n ?s1"
    by (simp add: Let_def)
  from Suc.IH [of ?s1] obtain news where
    n: "createBonusEffect_loop rnd x y n ?s1 =
          ?s1\<lparr>bonusParticles := bonusParticles ?s1 @ news, seed := seed ?s1 + 5 * n\<rparr>"
       "length news = n" "list_all (\<lambda>p. b_x p = x \<and> b_y p = y \<and> b_life p = 1) news"
    by blast
  have "createBonusEffect_loop rnd x y (Suc n) s =
          ?s1\<lparr>bonusParticles := bonusParticles ?s1 @ news, seed := seed ?s1 + 5 * n\<rparr>"
    by (simp only: step n(1))
  then show ?case
    using n(2,3) by (intro exI [of _ "?p # news"]) simp
qed

lemma createExplosion_fire_eq:
  "\<exists>news. createExplosion_fire rnd x y n s =
      s\<lparr>explosionParticles := explosionParticles s @ news, seed := seed s + 5 * n\<rparr>
    \<and> length news = n"
proof (induction n arbitrary: s)
  case 0
  show ?case by (rule exI [of _ "[]"]) simp
next
  case (Suc n)
  obtain p where step: "createExplosion_fire rnd x y (Suc n) s =
     createExplosion_fire rnd x y n (s\<lparr>explosionParticles := explosionParticles s @ [p], seed := seed s + 5\<rparr>)"
    by (simp add: Let_def)
  let ?s1 = "s\<lparr>explosionParticles := explosionParticles s @ [p], seed := seed s + 5\<rparr>"
  from Suc.IH [of ?s1] obtain news where
    n: "createExplosion_fire rnd x y n ?s1 =
          ?s1\<lparr>explosionParticles := explosionParticles ?s1 @ news, seed := seed ?s1 + 5 * n\<rparr>"
       "length news = n"
    by blast
  have "createExplosion_fire rnd x y (Suc n) s =
          ?s1\<lparr>explosionParticles := explosionParticles ?s1 @ news, seed := seed ?s1 + 5 * n\<rparr>"
    by (simp only: step n(1))
  then show ?case
    using n(2) by (intro exI [of _ "p # news"]) simp
qed

lemma createExplosion_smoke_eq:
  "\<exists>news. createExplosion_smoke rnd x y n s =
      s\<lparr>explosionParticles := explosionParticles s @ news, seed := seed s + 4 * n\<rparr>
    \<and> length news = n"
proof (induction n arbitrary: s)
  case 0
  show ?case by (rule exI [of _ "[]"]) simp
next
  case (Suc n)
  obtain p where step: "createExplosion_smoke rnd x y (Suc n) s =
     createExplosion_smoke rnd x y n (s\<lparr>explosionParticles := explosionParticles s @ [p], seed := seed s + 4\<rparr>)"
    by (simp add: Let_def)
  let ?s1 = "s\<lparr>explosionParticles := explosionParticles s @ [p], seed := seed s + 4\<rparr>"
  from Suc.IH [of ?s1] obtain news where
    n: "createExplosion_smoke rnd x y n ?s1 =
          ?s1\<lparr>explosionParticles := explosionParticles ?s1 @ news, seed := seed ?s1 + 4 * n\<rparr>"
       "length news = n"
    by blast
  have "createExplosion_smoke rnd x y (Suc n) s =
          ?s1\<lparr>explosionParticles := explosionParticles ?s1 @ news, seed := seed ?s1 + 4 * n\<rparr>"
    by (simp only: step n(1))
  then show ?case
    using n(2) by (intro exI [of _ "p # news"]) simp
qed

lemma createExplosion_eq:
  "\<exists>news. createExplosion rnd x y s =
      s\<lparr>explosionParticles := explosionParticles s @ news, seed := seed s + 380\<rparr>
    \<and> length news = 80"
proof -
  obtain n1 where 1: "createExplosion_fire rnd x y 60 s =
      s\<lparr>explosionParticles := explosionParticles s @ n1, seed := seed s + 5 * 60\<rparr>" "length n1 = 60"
    using createExplosion_fire_eq by blast
  let ?s1 = "createExplosion_fire rnd x y 60 s"
  obtain n2 where 2: "createExplosion_smoke rnd x y 20 ?s1 =
      ?s1\<lparr>explosionParticles := explosionParticles ?s1 @ n2, seed := seed ?s1 + 4 * 20\<rparr>" "length n2 = 20"
    using createExplosion_smoke_eq by blast
  have "createExplosion rnd x y s =
      ?s1\<lparr>explosionParticles := explosionParticles ?s1 @ n2, seed := seed ?s1 + 4 * 20\<rparr>"
    by (simp only: createExplosion_def 2(1))
  then have "createExplosion rnd x y s =
      s\<lparr>explosionParticles := explosionParticles s @ n1 @ n2, seed := seed s + 380\<rparr>"
    by (simp add: 1(1))
  then show ?thesis
    using 1(2) 2(2) by (intro exI [of _ "n1 @ n2"]) simp
qed

lemma collectBonus_eq:
  "\<exists>news. collectBonus rnd i s =
      s\<lparr>score := score s + 200, scoreFlashTime := 20,
        bonusParticles := bonusParticles s @ news, seed := seed s + 100,
        obstacles := splice1 i (obstacles s)\<rparr>
    \<and> length news = 20
    \<and> list_all (\<lambda>p. b_x p = o_x (obstacles s ! i) + o_width (obstacles s ! i) / 2
                     \<and> b_y p = o_y (obstacles s ! i) + o_height (obstacles s ! i) / 2
                     \<and> b_life p = 1) news"
proof -
  let ?ob = "obstacles s ! i"
  let ?s1 = "s\<lparr>score := score s + 200, scoreFlashTime := 20\<rparr>"
  obtain news where n: "createBonusEffect_loop rnd (o_x ?ob + o_width ?ob / 2) (o_y ?ob + o_height ?ob / 2) 20 ?s1 =
      ?s1\<lparr>bonusParticles := bonusParticles ?s1 @ news, seed := seed ?s1 + 5 * 20\<rparr>"
    "length news = 20" "list_all (\<lambda>p. b_x p = o_x ?ob + o_width ?ob / 2 \<and> b_y p = o_y ?ob + o_height ?ob / 2 \<and> b_life p = 1) news"
    using createBonusEffect_loop_eq by blast
  have "collectBonus rnd i s =
      (createBonusEffect_loop rnd (o_x ?ob + o_width ?ob / 2) (o_y ?ob + o_height ?ob / 2) 20 ?s1)
        \<lparr>obstacles := splice1 i (obstacles (createBonusEffect_loop rnd (o_x ?ob + o_width ?ob / 2) (o_y ?ob + o_height ?ob / 2) 20 ?s1))\<rparr>"
    by (simp add: collectBonus_def createBonusEffect_def Let_def)
  then have "collectBonus rnd i s =
      s\<lparr>score := score s + 200, scoreFlashTime := 20,
        bonusParticles := bonusParticles s @ news, seed := seed s + 100,
        obstacles := splice1 i (obstacles s)\<rparr>"
    by (simp add: n(1))
  then show ?thesis
    using n(2,3) by (intro exI [of _ news]) simp
qed

lemma checkCollision_loop_none:
  "(\<And>j. j < n \<Longrightarrow> \<not> overlaps (player s) (obstacles s ! j)) \<Longrightarrow>
   checkCollision_loop rnd n s = (False, s)"
  by (induction n) (simp_all add: Let_def)

lemma checkCollision_loop_first:
  assumes "i < n" and "overlaps (player s) (obstacles s ! i)"
    and "\<And>j. i < j \<Longrightarrow> j < n \<Longrightarrow> \<not> overlaps (player s) (obstacles s ! j)"
  shows "checkCollision_loop rnd n s =
     (if o_isBonus (obstacles s ! i) \<and> o_hasTransformed (obstacles s ! i)
      then (False, collectBonus rnd i s) else (True, s))"
  using assms
proof (induction n)
  case 0
  then show ?case by simp
next
  case (Suc n)
  show ?case
  proof (cases "i = n")
    case True
    with Suc.prems(2) show ?thesis by (simp add: Let_def)
  next
    case False
    with Suc.prems(1) have "i < n" by simp
    moreover have "\<not> overlaps (player s) (obstacles s ! n)"
      using Suc.prems(3) [of n] \<open>i < n\<close> by simp
    ultimately show ?thesis
      using Suc.IH Suc.prems(2,3) by (simp add: Let_def)
  qed
qed

lemma checkCollision_cases:
  "checkCollision rnd s = (False, s) \<or> checkCollision rnd s = (True, s)
   \<or> (\<exists>i < length (obstacles s). checkCollision rnd s = (False, collectBonus rnd i s))"
proof -
  have "checkCollision_loop rnd n s = (False, s) \<or> checkCollision_loop rnd n s = (True, s)
   \<or> (\<exists>i < n. checkCollision_loop rnd n s = (False, collectBonus rnd i s))" for n
  proof (induction n)
    case 0
    then show ?case by simp
  next
    case (Suc n)
    then show ?case by (auto simp add: Let_def less_Suc_eq)
  qed
  then show ?thesis by (simp add: checkCollision_def)
qed

subsection \<open>One frame\<close>

lemma updateObstacles_eq:
  "\<exists>batch k. updateObstacles rnd s =
      s\<lparr>obstacles := survivors (obstacles s) @ batch,
        score := score s + 10 * int (length (leavers (obstacles s))),
        frameCount := frameCount s + 1, seed := k\<rparr>
    \<and> list_all fresh batch \<and> length batch \<le> 2
    \<and> ((frameCount s + 1) mod obstacleSpawnRate \<noteq> 0 \<longrightarrow> batch = [] \<and> k = seed s)"
proof -
  let ?s2 = "s\<lparr>obstacles := survivors (obstacles s),
        score := score s + 10 * int (length (leavers (obstacles s))),
        frameCount := frameCount s + 1\<rparr>"
  have loop: "(updateObstacles_loop (length (obstacles s)) s)\<lparr>frameCount := frameCount s + 1\<rparr> = ?s2"
    by (simp add: updateObstacles_loop_eq survivors_def leavers_def)
  show ?thesis
  proof (cases "(frameCount s + 1) mod obstacleSpawnRate = 0")
    case True
    then have u: "updateObstacles rnd s = createObstacle rnd ?s2"
      using loop by (simp add: updateObstacles_def Let_def updateObstacles_loop_eq)
    obtain batch where b: "spawned ?s2 batch (createObstacle rnd ?s2)" "list_all fresh batch"
      "length batch \<le> 2" using createObstacle_spawned by blast
    from b(1) obtain k where "createObstacle rnd ?s2 = ?s2\<lparr>obstacles := obstacles ?s2 @ batch, seed := k\<rparr>"
      unfolding spawned_def ..
    with u have "updateObstacles rnd s = s\<lparr>obstacles := survivors (obstacles s) @ batch,
        score := score s + 10 * int (length (leavers (obstacles s))),
        frameCount := frameCount s + 1, seed := k\<rparr>" by simp
    with b(2,3) True show ?thesis by (intro exI [of _ batch] exI [of _ k]) simp
  next
    case False
    then have "updateObstacles rnd s = ?s2"
      using loop by (simp add: updateObstacles_def Let_def updateObstacles_loop_eq)
    then have "updateObstacles rnd s = s\<lparr>obstacles := survivors (obstacles s) @ [],
        score := score s + 10 * int (length (leavers (obstacles s))),
        frameCount := frameCount s + 1, seed := seed s\<rparr>" by simp
    then show ?thesis by (intro exI [of _ "[]"] exI [of _ "seed s"]) simp
  qed
qed

lemma updatePlayer_eq: "updatePlayer r s = s\<lparr>player := player (updatePlayer r s)\<rparr>"
  by (simp add: updatePlayer_def movePlayer_def Let_def)

lemma updates_eq:
  "\<exists>batch k. updates rnd r s =
      s\<lparr>player := player (updatePlayer r s),
        obstacles := survivors (obstacles s) @ batch,
        score := score s + 10 * int (length (leavers (obstacles s))),
        frameCount := frameCount s + 1, seed := k,
        bonusParticles := updateBonusParticles_loop (length (bonusParticles s)) (bonusParticles s)\<rparr>
    \<and> list_all fresh batch \<and> length batch \<le> 2
    \<and> ((frameCount s + 1) mod obstacleSpawnRate \<noteq> 0 \<longrightarrow> batch = [] \<and> k = seed s)"
proof -
  let ?s1 = "updatePlayer r s"
  have f: "obstacles ?s1 = obstacles s" "score ?s1 = score s" "frameCount ?s1 = frameCount s"
    "seed ?s1 = seed s" "bonusParticles ?s1 = bonusParticles s"
    by (simp_all add: updatePlayer_def movePlayer_def Let_def)
  obtain batch k where u: "updateObstacles rnd ?s1 =
      ?s1\<lparr>obstacles := survivors (obstacles ?s1) @ batch,
        score := score ?s1 + 10 * int (length (leavers (obstacles ?s1))),
        frameCount := frameCount ?s1 + 1, seed := k\<rparr>"
    and b: "list_all fresh batch" "length batch \<le> 2"
      "(frameCount ?s1 + 1) mod obstacleSpawnRate \<noteq> 0 \<longrightarrow> batch = [] \<and> k = seed ?s1"
    using updateObstacles_eq [of rnd ?s1] by blast
  have "updates rnd r s = updateBonusParticles (updateObstacles rnd ?s1)"
    by (simp add: updates_def)
  also have "\<dots> = s\<lparr>player := player (updatePlayer r s),
        obstacles := survivors (obstacles s) @ batch,
        score := score s + 10 * int (length (leavers (obstacles s))),
        frameCount := frameCount s + 1, seed := k,
        bonusParticles := updateBonusParticles_loop (length (bonusParticles s)) (bonusParticles s)\<rparr>"
    unfolding u f by (subst updatePlayer_eq) (simp add: updateBonusParticles_def f)
  finally show ?thesis using b f by (intro exI [of _ batch] exI [of _ k]) simp
qed

lemma fatalCollision_eq:
  "\<exists>news k. fatalCollision rnd s =
      s\<lparr>gameOver := True, highScore := max (highScore s) (score s),
        stored := (if score s > highScore s then Some (score s) else stored s),
        explosionParticles := explosionParticles s @ news, seed := k\<rparr>
    \<and> length news = 80"
proof -
  let ?s2 = "s\<lparr>gameOver := True, highScore := max (highScore s) (score s),
        stored := (if score s > highScore s then Some (score s) else stored s)\<rparr>"
  let ?x = "p_x (player s) + p_width (player s) / 2"
  let ?y = "p_y (player s) + p_height (player s) / 2"
  have "fatalCollision rnd s = createExplosion rnd ?x ?y ?s2"
    by (simp add: fatalCollision_def Let_def max_def)
  moreover obtain news where "createExplosion rnd ?x ?y ?s2 =
      ?s2\<lparr>explosionParticles := explosionParticles ?s2 @ news, seed := seed ?s2 + 380\<rparr>"
      "length news = 80"
    using createExplosion_eq by blast
  ultimately have "fatalCollision rnd s =
      s\<lparr>gameOver := True, highScore := max (highScore s) (score s),
        stored := (if score s > highScore s then Some (score s) else stored s),
        explosionParticles := explosionParticles s @ news, seed := seed s + 380\<rparr>"
    and "length news = 80" by simp_all
  then show ?thesis by (intro exI [of _ news] exI [of _ "seed s + 380"]) simp
qed

lemma gameLoop_over:
  assumes "gameOver s"
  shows "\<exists>ps t f k. gameLoop rnd r s =
      s\<lparr>explosionParticles := ps, showGameOverText := t, scoreFlashTime := f, seed := k\<rparr>"
proof -
  let ?s1 = "drawScore (updateExplosion (drawJungleBackground s))"
  have s1: "?s1 = s\<lparr>explosionParticles := explosionParticles ?s1,
                     scoreFlashTime := scoreFlashTime ?s1, seed := seed ?s1\<rparr>"
    by (simp add: drawScore_def updateExplosion_def drawJungleBackground_def)
  have g: "gameLoop rnd r s =
      (if explosionParticles ?s1 = [] \<or> showGameOverText ?s1
       then ?s1\<lparr>showGameOverText := True\<rparr> else ?s1)"
    using assms by (simp add: gameLoop_def Let_def drawJungleBackground_def)
  have sh: "showGameOverText ?s1 = showGameOverText s"
    by (simp add: drawScore_def updateExplosion_def drawJungleBackground_def)
  show ?thesis
  proof (cases "explosionParticles ?s1 = [] \<or> showGameOverText ?s1")
    case True
    then have "gameLoop rnd r s = ?s1\<lparr>showGameOverText := True\<rparr>" using g by simp
    also have "\<dots> = s\<lparr>explosionParticles := explosionParticles ?s1,
        showGameOverText := True, scoreFlashTime := scoreFlashTime ?s1, seed := seed ?s1\<rparr>"
      by (subst s1) simp
    finally show ?thesis by blast
  next
    case False
    then have "gameLoop rnd r s = ?s1" using g by simp
    also have "\<dots> = s\<lparr>explosionParticles := explosionParticles ?s1,
        showGameOverText := showGameOverText s, scoreFlashTime := scoreFlashTime ?s1, seed := seed ?s1\<rparr>"
      by (subst s1) simp
    finally show ?thesis by blast
  qed
qed

lemma gameLoop_playing:
  assumes "\<not> gameOver s"
  shows "gameLoop rnd r s =
     (case checkCollision rnd (updates rnd r (drawJungleBackground s)) of
        (hit, s1) \<Rightarrow> if hit then fatalCollision rnd s1 else drawScore s1)"
  using assms by (simp add: gameLoop_def Let_def drawJungleBackground_def)

lemma in_set_splice1: "x \<in> set (splice1 i xs) \<Longrightarrow> x \<in> set xs"
  using set_splice1 [of i xs] by auto

lemma survivors_subset: "set (survivors obs) \<subseteq> stepObstacle ` set obs"
  by (auto simp add: survivors_def)

lemma updates_obstacles:
  "set (obstacles (updates rnd r s)) \<subseteq> stepObstacle ` set (obstacles s) \<union> Collect fresh"
proof -
  obtain batch k where u: "updates rnd r s =
      s\<lparr>player := player (updatePlayer r s),
        obstacles := survivors (obstacles s) @ batch,
        score := score s + 10 * int (length (leavers (obstacles s))),
        frameCount := frameCount s + 1, seed := k,
        bonusParticles := updateBonusParticles_loop (length (bonusParticles s)) (bonusParticles s)\<rparr>"
    and b: "list_all fresh batch"
    using updates_eq [of rnd r s] by blast
  have "obstacles (updates rnd r s) = survivors (obstacles s) @ batch"
    by (subst u) simp
  then show ?thesis using b survivors_subset [of "obstacles s"]
    by (auto simp add: list_all_iff)
qed

lemma collectBonus_obstacles: "obstacles (collectBonus rnd i s) = splice1 i (obstacles s)"
proof -
  obtain news where "collectBonus rnd i s =
      s\<lparr>score := score s + 200, scoreFlashTime := 20,
        bonusParticles := bonusParticles s @ news, seed := seed s + 100,
        obstacles := splice1 i (obstacles s)\<rparr>"
    using collectBonus_eq by blast
  then show ?thesis by simp
qed

lemma fatalCollision_obstacles: "obstacles (fatalCollision rnd s) = obstacles s"
proof -
  obtain news k where "fatalCollision rnd s =
      s\<lparr>gameOver := True, highScore := max (highScore s) (score s),
        stored := (if score s > highScore s then Some (score s) else stored s),
        explosionParticles := explosionParticles s @ news, seed := k\<rparr>"
    using fatalCollision_eq by blast
  then show ?thesis by simp
qed

lemma drawScore_obstacles: "obstacles (drawScore s) = obstacles s"
  by (simp add: drawScore_def)

lemma gameLoop_obstacles:
  "set (obstacles (gameLoop rnd r s))
     \<subseteq> set (obstacles s) \<union> stepObstacle ` set (obstacles s) \<union> Collect fresh"
proof (cases "gameOver s")
  case True
  from gameLoop_over [OF True] obtain ps t f k where "gameLoop rnd r s =
      s\<lparr>explosionParticles := ps, showGameOverText := t, scoreFlashTime := f, seed := k\<rparr>"
    by blast
  then have "obstacles (gameLoop rnd r s) = obstacles s" by simp
  then show ?thesis by auto
next
  case False
  let ?u = "updates rnd r (drawJungleBackground s)"
  have u: "set (obstacles ?u) \<subseteq> stepObstacle ` set (obstacles s) \<union> Collect fresh"
    using updates_obstacles [of rnd r "drawJungleBackground s"]
    by (simp add: drawJungleBackground_def)
  have "set (obstacles (gameLoop rnd r s)) \<subseteq> set (obstacles ?u)"
    using checkCollision_cases [of rnd ?u]
    by (auto simp add: gameLoop_playing [OF False] fatalCollision_obstacles
        drawScore_obstacles collectBonus_obstacles dest: in_set_splice1)
  with u show ?thesis by blast
qed

lemma resetGame_obstacles: "set (obstacles (resetGame rnd r s)) \<subseteq> Collect fresh"
  using gameLoop_obstacles [of rnd r "resetFields s"]
  by (simp add: resetGame_def resetFields_def)

lemma handle_obstacles:
  "set (obstacles (handle rnd ev s))
     \<subseteq> set (obstacles s) \<union> stepObstacle ` set (obstacles s) \<union> Collect fresh"
proof (cases ev)
  case (Frame r)
  then show ?thesis using gameLoop_obstacles by simp
next
  case (TouchStart cx cy r)
  then show ?thesis using resetGame_obstacles [of rnd r s]
    by (auto simp add: touchstart_def split: prod.splits)
next
  case (Click cx cy r)
  then show ?thesis using resetGame_obstacles [of rnd r s]
    by (auto simp add: click_def split: prod.splits)
qed (auto simp add: keydown_def keyup_def touchmove_def touchend_def)

lemma run_obstacles_invariant:
  assumes step: "\<And>ob. P ob \<Longrightarrow> P (stepObstacle ob)"
    and fresh: "\<And>ob. fresh ob \<Longrightarrow> P ob"
  shows "list_all P (obstacles s) \<Longrightarrow> list_all P (obstacles (run rnd evs s))"
proof (induction evs arbitrary: s)
  case Nil
  then show ?case by simp
next
  case (Cons ev evs)
  have "list_all P (obstacles (handle rnd ev s))"
    using handle_obstacles [of rnd ev s] Cons.prems step fresh
    by (auto simp add: list_all_iff)
  from Cons.IH [OF this] show ?case by simp
qed

subsection \<open>Obstacles between frames\<close>

text \<open>The definitions that evaluate a frame on a concrete state.\<close>

lemmas frame_eval = gameLoop_def drawJungleBackground_def updates_def updatePlayer_def
  playerIntent_def movePlayer_def updateObstacles_def updateBonusParticles_def
  checkCollision_def drawScore_def Let_def initial_def initial_player_def
  canvas_width_def canvas_height_def obstacleSpawnRate_def stepObstacle_def
  overlaps_def playerHitbox_def obstacleHitbox_def padding_def splice1_def rect_canvas_def

lemma initial_obstacles: "obstacles (initial st) = []"
  by (simp add: initial_def)

lemma stepObstacle_bonusRipe: "bonusRipe ob \<Longrightarrow> bonusRipe (stepObstacle ob)"
  by (auto simp add: bonusRipe_def stepObstacle_def Let_def)

lemma fresh_bonusRipe: "fresh ob \<Longrightarrow> bonusRipe ob"
  by (auto simp add: bonusRipe_def fresh_def spawn_y_def canvas_height_def)

lemma stepObstacle_hasTransformed:
  "o_hasTransformed ob \<Longrightarrow> o_hasTransformed (stepObstacle ob)"
  by (simp add: stepObstacle_def Let_def)

text \<open>
  C8. For every bonus banana, at every state between two events, the flag
  \<open>hasTransformed\<close> is false when its y is above half the canvas height and true when
  its y is at or below it; and a step of the banana never resets the flag. This holds
  along every run from a state whose bonus bananas have it, in particular along every
  run of the program from its loaded state. (Between events an obstacle is changed by
  \<open>stepObstacle\<close> only: see \<open>handle_obstacles\<close>.)
\<close>

theorem bonus_transformed_iff_past_half:
  assumes "list_all bonusRipe (obstacles s)"
  shows "(\<forall>ob \<in> set (obstacles (run rnd evs s)). o_isBonus ob \<longrightarrow>
            (o_hasTransformed ob \<longleftrightarrow> canvas_height / 2 \<le> o_y ob)
            \<and> (o_hasTransformed ob \<longrightarrow> o_hasTransformed (stepObstacle ob)))
       \<and> (\<forall>ob \<in> set (obstacles (run rnd evs (initial st))). o_isBonus ob \<longrightarrow>
            (o_hasTransformed ob \<longleftrightarrow> canvas_height / 2 \<le> o_y ob)
            \<and> (o_hasTransformed ob \<longrightarrow> o_hasTransformed (stepObstacle ob)))"
proof -
  have inv: "list_all bonusRipe (obstacles (run rnd evs t))" if "list_all bonusRipe (obstacles t)" for t
    by (rule run_obstacles_invariant [where P = bonusRipe, OF stepObstacle_bonusRipe fresh_bonusRipe that])
  have concl: "\<forall>ob \<in> set obs. o_isBonus ob \<longrightarrow>
            (o_hasTransformed ob \<longleftrightarrow> canvas_height / 2 \<le> o_y ob)
            \<and> (o_hasTransformed ob \<longrightarrow> o_hasTransformed (stepObstacle ob))"
    if "list_all bonusRipe obs" for obs
    using that by (auto simp add: list_all_iff bonusRipe_def stepObstacle_hasTransformed)
  have "list_all bonusRipe (obstacles (initial st))" by (simp add: initial_obstacles)
  from concl [OF inv [OF assms]] concl [OF inv [OF this]] show ?thesis by blast
qed

theorem bonus_transformed_iff_past_half_witness:
  "list_all bonusRipe (obstacles two_bananas_state)
   \<and> hd (obstacles (run rnd_zero [Frame rect_canvas] two_bananas_state))
       = ripening_bonus\<lparr>o_y := 301, o_hasTransformed := True\<rparr>
   \<and> list_all (\<lambda>ob. o_isBonus ob \<and> o_hasTransformed ob \<and> canvas_height / 2 \<le> o_y ob
                   \<and> o_hasTransformed (stepObstacle ob))
        (filter o_isBonus (obstacles (run rnd_zero [Frame rect_canvas] two_bananas_state)))"
proof -
  have h: "list_all bonusRipe (obstacles two_bananas_state)"
    by (simp add: two_bananas_state_def ripening_bonus_def nearly_grown_def bonusRipe_def
        canvas_height_def)
  have e: "obstacles (gameLoop rnd_zero rect_canvas two_bananas_state) =
      [ripening_bonus\<lparr>o_y := 301, o_hasTransformed := True\<rparr>,
       nearly_grown\<lparr>o_y := 351.5, o_scale := 4.5\<rparr>]"
    by (simp add: frame_eval two_bananas_state_def ripening_bonus_def nearly_grown_def)
  show ?thesis
    using h bonus_transformed_iff_past_half [OF h, of rnd_zero "[Frame rect_canvas]" None]
    by (simp add: e ripening_bonus_def)
qed

lemma stepObstacle_scaleBounded: "scaleBounded ob \<Longrightarrow> scaleBounded (stepObstacle ob)"
  by (auto simp add: scaleBounded_def stepObstacle_def Let_def)

lemma fresh_scaleBounded: "fresh ob \<Longrightarrow> scaleBounded ob"
  by (simp add: scaleBounded_def fresh_def)

lemma stepObstacle_scale_mono: "o_scale ob \<le> o_scale (stepObstacle ob)"
  by (simp add: stepObstacle_def Let_def)

text \<open>
  C9. For every obstacle, and so for every growing banana, the scale starts at 1.5, never
  exceeds 4.5 and never decreases from one step to the next, along every run from a
  state whose obstacles have their scale between 1.5 and the cap 4.5, in particular
  along every run of the program from its loaded state.
\<close>

theorem growing_scale_capped_and_monotone:
  assumes "list_all scaleBounded (obstacles s)"
  shows "(\<forall>ob \<in> set (obstacles (run rnd evs s)).
            1.5 \<le> o_scale ob \<and> o_scale ob \<le> 4.5
            \<and> o_scale ob \<le> o_scale (stepObstacle ob) \<and> o_scale (stepObstacle ob) \<le> 4.5)
       \<and> (\<forall>ob \<in> set (obstacles (run rnd evs (initial st))).
            1.5 \<le> o_scale ob \<and> o_scale ob \<le> 4.5
            \<and> o_scale ob \<le> o_scale (stepObstacle ob) \<and> o_scale (stepObstacle ob) \<le> 4.5)
       \<and> o_scale (newObstacle x w spd isBonus isGrowing rot) = 1.5"
proof -
  have inv: "list_all scaleBounded (obstacles (run rnd evs t))"
    if "list_all scaleBounded (obstacles t)" for t
    by (rule run_obstacles_invariant [where P = scaleBounded, OF stepObstacle_scaleBounded fresh_scaleBounded that])
  have concl: "\<forall>ob \<in> set obs. 1.5 \<le> o_scale ob \<and> o_scale ob \<le> 4.5
            \<and> o_scale ob \<le> o_scale (stepObstacle ob) \<and> o_scale (stepObstacle ob) \<le> 4.5"
    if "list_all scaleBounded obs" for obs
  proof
    fix ob assume "ob \<in> set obs"
    with that have b: "scaleBounded ob" by (simp add: list_all_iff)
    from stepObstacle_scaleBounded [OF b] b stepObstacle_scale_mono [of ob]
    show "1.5 \<le> o_scale ob \<and> o_scale ob \<le> 4.5
            \<and> o_scale ob \<le> o_scale (stepObstacle ob) \<and> o_scale (stepObstacle ob) \<le> 4.5"
      by (simp add: scaleBounded_def)
  qed
  have "list_all scaleBounded (obstacles (initial st))" by (simp add: initial_obstacles)
  from concl [OF inv [OF assms]] concl [OF inv [OF this]] show ?thesis
    by (simp add: newObstacle_def)
qed

theorem growing_scale_capped_and_monotone_witness:
  "list_all scaleBounded (obstacles two_bananas_state)
   \<and> obstacles (run rnd_zero [Frame rect_canvas] two_bananas_state) ! 1
       = nearly_grown\<lparr>o_y := 351.5, o_scale := 4.5\<rparr>
   \<and> list_all (\<lambda>ob. 1.5 \<le> o_scale ob \<and> o_scale ob \<le> 4.5
                   \<and> o_scale ob \<le> o_scale (stepObstacle ob)
                   \<and> o_scale (stepObstacle ob) \<le> 4.5)
        (obstacles (run rnd_zero [Frame rect_canvas] two_bananas_state))"
proof -
  have h: "list_all scaleBounded (obstacles two_bananas_state)"
    by (simp add: two_bananas_state_def ripening_bonus_def nearly_grown_def scaleBounded_def)
  have e: "obstacles (gameLoop rnd_zero rect_canvas two_bananas_state) =
      [ripening_bonus\<lparr>o_y := 301, o_hasTransformed := True\<rparr>,
       nearly_grown\<lparr>o_y := 351.5, o_scale := 4.5\<rparr>]"
    by (simp add: frame_eval two_bananas_state_def ripening_bonus_def nearly_grown_def)
  show ?thesis
    using h growing_scale_capped_and_monotone [OF h, of rnd_zero "[Frame rect_canvas]" None]
    by (simp add: e)
qed

lemma stepObstacle_plainScale: "plainScale ob \<Longrightarrow> plainScale (stepObstacle ob)"
  by (auto simp add: plainScale_def stepObstacle_def Let_def)

lemma fresh_plainScale: "fresh ob \<Longrightarrow> plainScale ob"
  by (simp add: plainScale_def fresh_def)

lemma plainScale_hitbox:
  assumes "plainScale ob" and "\<not> o_isGrowing ob"
  shows "obstacleHitbox ob =
     \<lparr> h_x = o_x ob + 0.5, h_y = o_y ob + 3, h_width = 29, h_height = 14 \<rparr>"
  using assms by (simp add: plainScale_def obstacleHitbox_def padding_def Let_def)

text \<open>
  C10. Every obstacle that is not a growing banana keeps the scale 1.5 throughout, so its
  hitbox in \<open>checkCollision\<close> is the rectangle scaled by 1.5 about the centre and
  shrunk by the padding, 29 by 14 at \<open>(x + 0.5, y + 3)\<close>, not its nominal 30 by 20
  box.
\<close>

theorem plain_obstacle_scale_and_hitbox:
  assumes "list_all plainScale (obstacles s)"
  shows "(\<forall>ob \<in> set (obstacles (run rnd evs s)). \<not> o_isGrowing ob \<longrightarrow>
            o_scale ob = 1.5
            \<and> obstacleHitbox ob =
                \<lparr> h_x = o_x ob + 0.5, h_y = o_y ob + 3, h_width = 29, h_height = 14 \<rparr>)
       \<and> (\<forall>ob \<in> set (obstacles (run rnd evs (initial st))). \<not> o_isGrowing ob \<longrightarrow>
            o_scale ob = 1.5
            \<and> obstacleHitbox ob =
                \<lparr> h_x = o_x ob + 0.5, h_y = o_y ob + 3, h_width = 29, h_height = 14 \<rparr>)"
proof -
  have inv: "list_all plainScale (obstacles (run rnd evs t))"
    if "list_all plainScale (obstacles t)" for t
    by (rule run_obstacles_invariant [where P = plainScale, OF stepObstacle_plainScale fresh_plainScale that])
  have concl: "\<forall>ob \<in> set obs. \<not> o_isGrowing ob \<longrightarrow>
            o_scale ob = 1.5
            \<and> obstacleHitbox ob =
                \<lparr> h_x = o_x ob + 0.5, h_y = o_y ob + 3, h_width = 29, h_height = 14 \<rparr>"
    if "list_all plainScale obs" for obs
    using that plainScale_hitbox by (auto simp add: list_all_iff plainScale_def)
  have "list_all plainScale (obstacles (initial st))" by (simp add: initial_obstacles)
  from concl [OF inv [OF assms]] concl [OF inv [OF this]] show ?thesis by blast
qed

theorem plain_obstacle_scale_and_hitbox_witness:
  "list_all plainScale (obstacles two_bananas_state)
   \<and> \<not> o_isGrowing (hd (obstacles (run rnd_zero [Frame rect_canvas] two_bananas_state)))
   \<and> o_scale (hd (obstacles (run rnd_zero [Frame rect_canvas] two_bananas_state))) = 1.5
   \<and> obstacleHitbox (hd (obstacles (run rnd_zero [Frame rect_canvas] two_bananas_state)))
       = \<lparr> h_x = 100.5, h_y = 304, h_width = 29, h_height = 14 \<rparr>"
proof -
  have h: "list_all plainScale (obstacles two_bananas_state)"
    by (simp add: two_bananas_state_def ripening_bonus_def nearly_grown_def plainScale_def)
  have e: "obstacles (gameLoop rnd_zero rect_canvas two_bananas_state) =
      [ripening_bonus\<lparr>o_y := 301, o_hasTransformed := True\<rparr>,
       nearly_grown\<lparr>o_y := 351.5, o_scale := 4.5\<rparr>]"
    by (simp add: frame_eval two_bananas_state_def ripening_bonus_def nearly_grown_def)
  show ?thesis
    using h plain_obstacle_scale_and_hitbox [OF h, of rnd_zero "[Frame rect_canvas]" None]
    by (simp add: e ripening_bonus_def)
qed

subsection \<open>Collisions\<close>

theorem createObstacle_leaves_gap_witness:
  "length (obstacles (createObstacle rnd_two (initial None))) = 2
   \<and> (\<exists>a. freeSpan a (obstacles (createObstacle rnd_two (initial None))))"
proof -
  have e: "map o_x (obstacles (createObstacle rnd_two (initial None))) = [385, 77]"
    by (simp add: createObstacle_def Math_random_def rnd_two_def rand_half.rep_eq
        rand_tenth.rep_eq initial_def maxAttempts_def eval_nat_numeral attempt_def Let_def
        canvas_width_def minGap_def newObstacle_def hasValidGap_def)
  have i: "obstacles (initial None) = []" by (simp add: initial_def)
  from e have "length (map o_x (obstacles (createObstacle rnd_two (initial None)))) = 2"
    by simp
  then show ?thesis
    using createObstacle_leaves_gap [of rnd_two "initial None"] by (auto simp add: i)
qed

lemma firstOverlap_checkCollision:
  assumes "firstOverlap s i"
  shows "checkCollision rnd s =
     (if o_isBonus (obstacles s ! i) \<and> o_hasTransformed (obstacles s ! i)
      then (False, collectBonus rnd i s) else (True, s))"
  unfolding checkCollision_def
proof (rule checkCollision_loop_first)
  show "i < length (obstacles s)" and "overlaps (player s) (obstacles s ! i)"
    using assms by (simp_all add: firstOverlap_def)
next
  fix j assume j: "i < j" "j < length (obstacles s)"
  then have "obstacles s ! j = drop (Suc i) (obstacles s) ! (j - Suc i)" by simp
  moreover have "j - Suc i < length (drop (Suc i) (obstacles s))" using j by simp
  ultimately have "obstacles s ! j \<in> set (drop (Suc i) (obstacles s))"
    by (metis nth_mem)
  then show "\<not> overlaps (player s) (obstacles s ! j)"
    using assms by (simp add: firstOverlap_def list_all_iff)
qed

lemma gameLoop_scanState:
  assumes "\<not> gameOver s"
  shows "gameLoop rnd r s =
     (case checkCollision rnd (scanState rnd r s) of
        (hit, s1) \<Rightarrow> if hit then fatalCollision rnd s1 else drawScore s1)"
  using gameLoop_playing [OF assms] by (simp add: scanState_def)

lemma scanState_eq:
  "\<exists>batch k. scanState rnd r s =
      s\<lparr>player := player (updatePlayer r s),
        obstacles := survivors (obstacles s) @ batch,
        score := score s + 10 * int (length (leavers (obstacles s))),
        frameCount := frameCount s + 1, seed := k,
        bonusParticles :=
          updateBonusParticles_loop (length (bonusParticles s)) (bonusParticles s)\<rparr>
    \<and> list_all fresh batch \<and> length batch \<le> 2"
proof -
  let ?z = "drawJungleBackground s"
  have z: "obstacles ?z = obstacles s" "score ?z = score s" "frameCount ?z = frameCount s"
    "bonusParticles ?z = bonusParticles s" "player (updatePlayer r ?z) = player (updatePlayer r s)"
    by (simp_all add: drawJungleBackground_def updatePlayer_def movePlayer_def
        playerIntent_def Let_def)
  obtain batch k where u: "updates rnd r ?z =
      ?z\<lparr>player := player (updatePlayer r ?z),
        obstacles := survivors (obstacles ?z) @ batch,
        score := score ?z + 10 * int (length (leavers (obstacles ?z))),
        frameCount := frameCount ?z + 1, seed := k,
        bonusParticles :=
          updateBonusParticles_loop (length (bonusParticles ?z)) (bonusParticles ?z)\<rparr>"
    and b: "list_all fresh batch" "length batch \<le> 2"
    using updates_eq [of rnd r ?z] by blast
  have "scanState rnd r s =
      s\<lparr>player := player (updatePlayer r s),
        obstacles := survivors (obstacles s) @ batch,
        score := score s + 10 * int (length (leavers (obstacles s))),
        frameCount := frameCount s + 1, seed := k,
        bonusParticles :=
          updateBonusParticles_loop (length (bonusParticles s)) (bonusParticles s)\<rparr>"
    unfolding scanState_def u z by (simp add: drawJungleBackground_def)
  with b show ?thesis by blast
qed

lemma scanState_fields:
  "highScore (scanState rnd r s) = highScore s"
  "gameOver (scanState rnd r s) = gameOver s"
  "player (scanState rnd r s) = player (updatePlayer r s)"
  "score (scanState rnd r s) = score s + 10 * int (length (leavers (obstacles s)))"
  "explosionParticles (scanState rnd r s) = explosionParticles s"
  "showGameOverText (scanState rnd r s) = showGameOverText s"
proof -
  obtain batch k where u: "scanState rnd r s =
      s\<lparr>player := player (updatePlayer r s),
        obstacles := survivors (obstacles s) @ batch,
        score := score s + 10 * int (length (leavers (obstacles s))),
        frameCount := frameCount s + 1, seed := k,
        bonusParticles :=
          updateBonusParticles_loop (length (bonusParticles s)) (bonusParticles s)\<rparr>"
    using scanState_eq [of rnd r s] by blast
  show "highScore (scanState rnd r s) = highScore s"
    "gameOver (scanState rnd r s) = gameOver s"
    "player (scanState rnd r s) = player (updatePlayer r s)"
    "score (scanState rnd r s) = score s + 10 * int (length (leavers (obstacles s)))"
    "explosionParticles (scanState rnd r s) = explosionParticles s"
    "showGameOverText (scanState rnd r s) = showGameOverText s"
    by (subst u, simp)+
qed

text \<open>
  C3. When the first obstacle that the scan finds to overlap the player is a ripe
  (transformed) bonus banana, at index \<open>i\<close>, then the scan returns false there, whatever
  lies at the lower indices, and the frame adds exactly 200 to the score the scan started
  with (the score before the frame and 10 for each obstacle that left the canvas in it),
  leaves the game running and the high score alone, removes that obstacle, starts the
  score flash, and appends twenty sparkles at the centre of the obstacle.
\<close>

theorem ripe_bonus_collected:
  assumes "\<not> gameOver s"
    and "firstOverlap (scanState rnd r s) i"
    and "o_isBonus (obstacles (scanState rnd r s) ! i)"
    and "o_hasTransformed (obstacles (scanState rnd r s) ! i)"
  shows "checkCollision rnd (scanState rnd r s) = (False, collectBonus rnd i (scanState rnd r s))
       \<and> score (gameLoop rnd r s) = score (scanState rnd r s) + 200
       \<and> score (scanState rnd r s) = score s + 10 * int (length (leavers (obstacles s)))
       \<and> \<not> gameOver (gameLoop rnd r s)
       \<and> highScore (gameLoop rnd r s) = highScore s
       \<and> obstacles (gameLoop rnd r s) = splice1 i (obstacles (scanState rnd r s))
       \<and> scoreFlashTime (gameLoop rnd r s) = 19
       \<and> take (length (bonusParticles (scanState rnd r s))) (bonusParticles (gameLoop rnd r s))
           = bonusParticles (scanState rnd r s)
       \<and> length (bonusParticles (gameLoop rnd r s))
           = length (bonusParticles (scanState rnd r s)) + 20
       \<and> list_all (\<lambda>p. b_x p = o_x (obstacles (scanState rnd r s) ! i)
                             + o_width (obstacles (scanState rnd r s) ! i) / 2
                      \<and> b_y p = o_y (obstacles (scanState rnd r s) ! i)
                             + o_height (obstacles (scanState rnd r s) ! i) / 2
                      \<and> b_life p = 1)
           (drop (length (bonusParticles (scanState rnd r s))) (bonusParticles (gameLoop rnd r s)))"
proof -
  let ?u = "scanState rnd r s"
  have c: "checkCollision rnd ?u = (False, collectBonus rnd i ?u)"
    using firstOverlap_checkCollision [OF assms(2), of rnd] assms(3,4) by simp
  have g: "gameLoop rnd r s = drawScore (collectBonus rnd i ?u)"
    using gameLoop_scanState [OF assms(1), of rnd r] c by simp
  obtain news where n: "collectBonus rnd i ?u =
      ?u\<lparr>score := score ?u + 200, scoreFlashTime := 20,
        bonusParticles := bonusParticles ?u @ news, seed := seed ?u + 100,
        obstacles := splice1 i (obstacles ?u)\<rparr>"
    "length news = 20"
    "list_all (\<lambda>p. b_x p = o_x (obstacles ?u ! i) + o_width (obstacles ?u ! i) / 2
                     \<and> b_y p = o_y (obstacles ?u ! i) + o_height (obstacles ?u ! i) / 2
                     \<and> b_life p = 1) news"
    using collectBonus_eq [of rnd i ?u] by blast
  have go: "gameOver ?u = gameOver s" by (rule scanState_fields(2))
  have g': "gameLoop rnd r s =
      ?u\<lparr>score := score ?u + 200, scoreFlashTime := 19,
        bonusParticles := bonusParticles ?u @ news, seed := seed ?u + 100,
        obstacles := splice1 i (obstacles ?u)\<rparr>"
    unfolding g n(1) by (simp add: drawScore_def)
  show ?thesis
    unfolding c
    by (subst g')+ (simp add: n(2,3) go assms(1) scanState_fields(1) scanState_fields(4))
qed

lemma scanState_bonus_first:
  "obstacles (scanState rnd_zero rect_canvas bonus_first_state)
     = [green_banana\<lparr>o_y := 483\<rparr>, ripe_bonus\<lparr>o_y := 490\<rparr>]"
  "player (scanState rnd_zero rect_canvas bonus_first_state) = initial_player"
  "score (scanState rnd_zero rect_canvas bonus_first_state) = 540"
  "bonusParticles (scanState rnd_zero rect_canvas bonus_first_state) = []"
  by (simp_all add: scanState_def frame_eval bonus_first_state_def green_banana_def
      ripe_bonus_def)

theorem ripe_bonus_collected_witness:
  "\<not> gameOver bonus_first_state
   \<and> firstOverlap (scanState rnd_zero rect_canvas bonus_first_state) 1
   \<and> o_isBonus (obstacles (scanState rnd_zero rect_canvas bonus_first_state) ! 1)
   \<and> o_hasTransformed (obstacles (scanState rnd_zero rect_canvas bonus_first_state) ! 1)
   \<and> overlaps (player (scanState rnd_zero rect_canvas bonus_first_state))
        (obstacles (scanState rnd_zero rect_canvas bonus_first_state) ! 0)
   \<and> \<not> o_isBonus (obstacles (scanState rnd_zero rect_canvas bonus_first_state) ! 0)
   \<and> score (gameLoop rnd_zero rect_canvas bonus_first_state) = 740
   \<and> \<not> gameOver (gameLoop rnd_zero rect_canvas bonus_first_state)
   \<and> obstacles (gameLoop rnd_zero rect_canvas bonus_first_state) = [green_banana\<lparr>o_y := 483\<rparr>]
   \<and> length (bonusParticles (gameLoop rnd_zero rect_canvas bonus_first_state)) = 20"
proof -
  have h1: "\<not> gameOver bonus_first_state"
    by (simp add: bonus_first_state_def initial_def)
  have h2: "firstOverlap (scanState rnd_zero rect_canvas bonus_first_state) 1"
    by (simp add: firstOverlap_def scanState_bonus_first overlaps_def playerHitbox_def
        obstacleHitbox_def padding_def initial_player_def ripe_bonus_def canvas_width_def
        canvas_height_def Let_def)
  have h3: "o_isBonus (obstacles (scanState rnd_zero rect_canvas bonus_first_state) ! 1)"
    and h4: "o_hasTransformed (obstacles (scanState rnd_zero rect_canvas bonus_first_state) ! 1)"
    by (simp_all add: scanState_bonus_first ripe_bonus_def)
  have o: "overlaps (player (scanState rnd_zero rect_canvas bonus_first_state))
        (obstacles (scanState rnd_zero rect_canvas bonus_first_state) ! 0)"
    "\<not> o_isBonus (obstacles (scanState rnd_zero rect_canvas bonus_first_state) ! 0)"
    by (simp_all add: scanState_bonus_first overlaps_def playerHitbox_def
        obstacleHitbox_def padding_def initial_player_def green_banana_def canvas_width_def
        canvas_height_def Let_def)
  show ?thesis
    using h1 h2 h3 h4 o ripe_bonus_collected [OF h1 h2 h3 h4]
    by (simp add: scanState_bonus_first splice1_def)
qed

text \<open>Frames of a game that is over change neither the score nor the obstacles nor the player.\<close>

lemma terminal_frames:
  assumes "gameOver t"
  shows "gameOver (run rnd (map Frame rs) t)
       \<and> highScore (run rnd (map Frame rs) t) = highScore t
       \<and> score (run rnd (map Frame rs) t) = score t
       \<and> obstacles (run rnd (map Frame rs) t) = obstacles t
       \<and> player (run rnd (map Frame rs) t) = player t
       \<and> stored (run rnd (map Frame rs) t) = stored t"
  using assms
proof (induction rs arbitrary: t)
  case Nil
  then show ?case by simp
next
  case (Cons r rs)
  from gameLoop_over [OF Cons.prems, of rnd r] obtain ps sh f k where
    g: "gameLoop rnd r t =
      t\<lparr>explosionParticles := ps, showGameOverText := sh, scoreFlashTime := f, seed := k\<rparr>"
    by blast
  have "gameOver (gameLoop rnd r t)" by (subst g) (simp add: Cons.prems)
  from Cons.IH [OF this] show ?case by (simp add: g)
qed

text \<open>
  C4. When the first obstacle that the scan finds to overlap the player is not a ripe bonus
  banana, that is, a green one, an unripe bonus one or a growing one (which is never a
  bonus one), then the frame ends the game and sets the high score to the larger of the
  previous high score and the score at the scan (the score before the frame and 10 for
  each obstacle that left the canvas in it); the obstacles stay, an explosion of
  eighty particles starts, and the frames that follow leave the game over with the same
  score, high score and obstacles: the transition happens once.
\<close>

theorem fatal_collision_ends_run:
  assumes "\<not> gameOver s"
    and "firstOverlap (scanState rnd r s) i"
    and "\<not> (o_isBonus (obstacles (scanState rnd r s) ! i)
            \<and> o_hasTransformed (obstacles (scanState rnd r s) ! i))"
  shows "checkCollision rnd (scanState rnd r s) = (True, scanState rnd r s)
       \<and> gameOver (gameLoop rnd r s)
       \<and> highScore (gameLoop rnd r s) = max (highScore s) (score (scanState rnd r s))
       \<and> score (gameLoop rnd r s) = score (scanState rnd r s)
       \<and> score (scanState rnd r s) = score s + 10 * int (length (leavers (obstacles s)))
       \<and> obstacles (gameLoop rnd r s) = obstacles (scanState rnd r s)
       \<and> length (explosionParticles (gameLoop rnd r s))
           = length (explosionParticles (scanState rnd r s)) + 80
       \<and> gameOver (run rnd (map Frame rs) (gameLoop rnd r s))
       \<and> highScore (run rnd (map Frame rs) (gameLoop rnd r s)) = highScore (gameLoop rnd r s)
       \<and> score (run rnd (map Frame rs) (gameLoop rnd r s)) = score (gameLoop rnd r s)
       \<and> obstacles (run rnd (map Frame rs) (gameLoop rnd r s)) = obstacles (gameLoop rnd r s)"
proof -
  let ?u = "scanState rnd r s"
  have c: "checkCollision rnd ?u = (True, ?u)"
    using firstOverlap_checkCollision [OF assms(2), of rnd] assms(3) by simp
  have g: "gameLoop rnd r s = fatalCollision rnd ?u"
    using gameLoop_scanState [OF assms(1), of rnd r] c by simp
  obtain news k where n: "fatalCollision rnd ?u =
      ?u\<lparr>gameOver := True, highScore := max (highScore ?u) (score ?u),
        stored := (if score ?u > highScore ?u then Some (score ?u) else stored ?u),
        explosionParticles := explosionParticles ?u @ news, seed := k\<rparr>"
    "length news = 80"
    using fatalCollision_eq [of rnd ?u] by blast
  have g': "gameLoop rnd r s =
      ?u\<lparr>gameOver := True, highScore := max (highScore s) (score ?u),
        stored := (if score ?u > highScore s then Some (score ?u) else stored ?u),
        explosionParticles := explosionParticles ?u @ news, seed := k\<rparr>"
    unfolding g n(1) by (simp add: scanState_fields(1))
  have over: "gameOver (gameLoop rnd r s)" by (subst g') simp
  have first: "gameOver (gameLoop rnd r s)
       \<and> highScore (gameLoop rnd r s) = max (highScore s) (score ?u)
       \<and> score (gameLoop rnd r s) = score ?u
       \<and> obstacles (gameLoop rnd r s) = obstacles ?u
       \<and> length (explosionParticles (gameLoop rnd r s)) = length (explosionParticles ?u) + 80"
    by (subst g')+ (simp add: n(2))
  from c first terminal_frames [OF over, of rnd rs] scanState_fields(4) [of rnd r s]
  show ?thesis by simp
qed

theorem fatal_collision_ends_run_witness:
  "\<not> gameOver crash_state
   \<and> firstOverlap (scanState rnd_zero rect_canvas crash_state) 0
   \<and> \<not> o_isBonus (obstacles (scanState rnd_zero rect_canvas crash_state) ! 0)
   \<and> highScore crash_state = 300
   \<and> gameOver (gameLoop rnd_zero rect_canvas crash_state)
   \<and> highScore (gameLoop rnd_zero rect_canvas crash_state) = 540
   \<and> score (gameLoop rnd_zero rect_canvas crash_state) = 540
   \<and> obstacles (gameLoop rnd_zero rect_canvas crash_state) = [green_banana\<lparr>o_y := 483\<rparr>]
   \<and> gameOver (run rnd_zero [Frame rect_canvas, Frame rect_canvas]
                 (gameLoop rnd_zero rect_canvas crash_state))
   \<and> highScore (run rnd_zero [Frame rect_canvas, Frame rect_canvas]
                 (gameLoop rnd_zero rect_canvas crash_state)) = 540"
proof -
  have u: "obstacles (scanState rnd_zero rect_canvas crash_state) = [green_banana\<lparr>o_y := 483\<rparr>]"
    "player (scanState rnd_zero rect_canvas crash_state) = initial_player"
    "score (scanState rnd_zero rect_canvas crash_state) = 540"
    by (simp_all add: scanState_def frame_eval crash_state_def green_banana_def)
  have h1: "\<not> gameOver crash_state" and hs: "highScore crash_state = 300"
    by (simp_all add: crash_state_def initial_def)
  have h2: "firstOverlap (scanState rnd_zero rect_canvas crash_state) 0"
    by (simp add: firstOverlap_def u overlaps_def playerHitbox_def
        obstacleHitbox_def padding_def initial_player_def green_banana_def canvas_width_def
        canvas_height_def Let_def)
  have h3: "\<not> (o_isBonus (obstacles (scanState rnd_zero rect_canvas crash_state) ! 0)
            \<and> o_hasTransformed (obstacles (scanState rnd_zero rect_canvas crash_state) ! 0))"
    by (simp add: u green_banana_def)
  show ?thesis
    using h1 h2 h3 hs
      fatal_collision_ends_run [OF h1 h2 h3, of "[rect_canvas, rect_canvas]"]
    by (simp add: u green_banana_def)
qed

subsection \<open>An obstacle at the bottom edge\<close>

lemma updateObstacles_single:
  assumes "obstacles s = [ob]" and "(frameCount s + 1) mod obstacleSpawnRate \<noteq> 0"
  shows "updateObstacles rnd s =
     s\<lparr>obstacles := (if o_y (stepObstacle ob) > canvas_height then [] else [stepObstacle ob]),
       score := score s + (if o_y (stepObstacle ob) > canvas_height then 10 else 0),
       frameCount := frameCount s + 1\<rparr>"
proof -
  obtain batch k where u: "updateObstacles rnd s =
      s\<lparr>obstacles := survivors (obstacles s) @ batch,
        score := score s + 10 * int (length (leavers (obstacles s))),
        frameCount := frameCount s + 1, seed := k\<rparr>"
    and b: "(frameCount s + 1) mod obstacleSpawnRate \<noteq> 0 \<longrightarrow> batch = [] \<and> k = seed s"
    using updateObstacles_eq [of rnd s] by blast
  from b assms(2) have "batch = []" "k = seed s" by simp_all
  then show ?thesis
    unfolding u by (simp add: assms(1) survivors_def leavers_def)
qed

lemma stepObstacle_falling:
  assumes "o_isGrowing ob \<longrightarrow> o_hasTransformed ob"
  shows "o_y (stepObstacle ob) = o_y ob + o_speed ob"
    and "o_speed (stepObstacle ob) = o_speed ob"
    and "o_isGrowing (stepObstacle ob) \<longrightarrow> o_hasTransformed (stepObstacle ob)"
  using assms by (auto simp add: stepObstacle_def Let_def)

text \<open>
  C2, as the code has it. An obstacle is removed when its y exceeds the canvas height, not
  when it reaches it. For a single obstacle at y = 590 that falls by 5, on a canvas 600
  high, in frames in which the spawner does not run: the first update moves it to 595
  and the second to 600, and after both it is still in the array and the score is
  unchanged; the third moves it to 605, removes it and adds exactly 10 to the score.
\<close>

theorem obstacle_removed_below_bottom:
  assumes "obstacles s = [ob]" and "o_y ob = 590" and "o_speed ob = 5"
    and "o_isGrowing ob \<longrightarrow> o_hasTransformed ob"
    and "frameCount s mod obstacleSpawnRate < 57"
  shows "map o_y (obstacles (updateObstacles rnd s)) = [595]
       \<and> score (updateObstacles rnd s) = score s
       \<and> map o_y (obstacles (updateObstacles rnd (updateObstacles rnd s))) = [600]
       \<and> score (updateObstacles rnd (updateObstacles rnd s)) = score s
       \<and> obstacles (updateObstacles rnd (updateObstacles rnd (updateObstacles rnd s))) = []
       \<and> score (updateObstacles rnd (updateObstacles rnd (updateObstacles rnd s)))
           = score s + 10"
proof -
  let ?o1 = "stepObstacle ob"
  let ?o2 = "stepObstacle ?o1"
  let ?o3 = "stepObstacle ?o2"
  have f: "(frameCount s + 1) mod obstacleSpawnRate \<noteq> 0"
    "(frameCount s + 1 + 1) mod obstacleSpawnRate \<noteq> 0"
    "(frameCount s + 1 + 1 + 1) mod obstacleSpawnRate \<noteq> 0"
    using assms(5) unfolding obstacleSpawnRate_def
    by (auto simp add: mod_Suc split: if_splits)
  have y1: "o_y ?o1 = 595" and v1: "o_speed ?o1 = 5"
    and g1: "o_isGrowing ?o1 \<longrightarrow> o_hasTransformed ?o1"
    using stepObstacle_falling [OF assms(4)] assms(2,3) by simp_all
  have y2: "o_y ?o2 = 600" and v2: "o_speed ?o2 = 5"
    and g2: "o_isGrowing ?o2 \<longrightarrow> o_hasTransformed ?o2"
    using stepObstacle_falling [OF g1] y1 v1 by simp_all
  have y3: "o_y ?o3 = 605"
    using stepObstacle_falling(1) [OF g2] y2 v2 by simp
  let ?s1 = "s\<lparr>obstacles := [?o1], frameCount := frameCount s + 1\<rparr>"
  let ?s2 = "s\<lparr>obstacles := [?o2], frameCount := frameCount s + 1 + 1\<rparr>"
  let ?s3 = "s\<lparr>obstacles := [], score := score s + 10, frameCount := frameCount s + 1 + 1 + 1\<rparr>"
  have s1: "updateObstacles rnd s = ?s1"
    using updateObstacles_single [OF assms(1) f(1), of rnd] y1
    by (simp add: canvas_height_def)
  have s2: "updateObstacles rnd ?s1 = ?s2"
    using updateObstacles_single [of ?s1 ?o1 rnd] f(2) y2
    by (simp add: canvas_height_def)
  have s3: "updateObstacles rnd ?s2 = ?s3"
    using updateObstacles_single [of ?s2 ?o2 rnd] f(3) y3
    by (simp add: canvas_height_def)
  show ?thesis
    unfolding s1 s2 s3 by (simp add: y1 y2)
qed

theorem obstacle_removed_below_bottom_witness:
  "obstacles falling_state = [falling_banana] \<and> o_y falling_banana = 590
   \<and> o_speed falling_banana = 5 \<and> \<not> o_isGrowing falling_banana
   \<and> frameCount falling_state mod obstacleSpawnRate < 57
   \<and> map o_y (obstacles (updateObstacles rnd_zero (updateObstacles rnd_zero falling_state)))
       = [600]
   \<and> obstacles (updateObstacles rnd_zero
        (updateObstacles rnd_zero (updateObstacles rnd_zero falling_state))) = []
   \<and> score (updateObstacles rnd_zero
        (updateObstacles rnd_zero (updateObstacles rnd_zero falling_state))) = 10"
proof -
  have h: "obstacles falling_state = [falling_banana]" "o_y falling_banana = 590"
    "o_speed falling_banana = 5" "o_isGrowing falling_banana \<longrightarrow> o_hasTransformed falling_banana"
    "frameCount falling_state mod obstacleSpawnRate < 57"
    by (simp_all add: falling_state_def falling_banana_def initial_def obstacleSpawnRate_def)
  have "\<not> o_isGrowing falling_banana" "score falling_state = 0"
    by (simp_all add: falling_state_def falling_banana_def initial_def)
  then show ?thesis
    using h obstacle_removed_below_bottom [OF h, of rnd_zero] by simp
qed

text \<open>
  After the second update the obstacle of the scenario is at y = 600, still in the array,
  and the score has not changed.
\<close>

theorem obstacle_at_bottom_edge_counterexample:
  "map o_y (obstacles (updateObstacles rnd_zero (updateObstacles rnd_zero falling_state)))
     = [600]
   \<and> score (updateObstacles rnd_zero (updateObstacles rnd_zero falling_state))
     = score falling_state"
  by (simp add: updateObstacles_def falling_state_def falling_banana_def initial_def
      stepObstacle_def Let_def canvas_height_def obstacleSpawnRate_def splice1_def)

subsection \<open>Game over and restart\<close>

lemma gameLoop_fatal:
  assumes "\<not> gameOver s"
    and "firstOverlap (scanState rnd r s) i"
    and "\<not> (o_isBonus (obstacles (scanState rnd r s) ! i)
            \<and> o_hasTransformed (obstacles (scanState rnd r s) ! i))"
  shows "\<exists>news k. gameLoop rnd r s =
      (scanState rnd r s)\<lparr>gameOver := True,
        highScore := max (highScore s) (score (scanState rnd r s)),
        stored := (if score (scanState rnd r s) > highScore s
                   then Some (score (scanState rnd r s)) else stored (scanState rnd r s)),
        explosionParticles := explosionParticles (scanState rnd r s) @ news, seed := k\<rparr>
    \<and> length news = 80"
proof -
  let ?u = "scanState rnd r s"
  have c: "checkCollision rnd ?u = (True, ?u)"
    using firstOverlap_checkCollision [OF assms(2), of rnd] assms(3) by simp
  have g: "gameLoop rnd r s = fatalCollision rnd ?u"
    using gameLoop_scanState [OF assms(1), of rnd r] c by simp
  obtain news k where n: "fatalCollision rnd ?u =
      ?u\<lparr>gameOver := True, highScore := max (highScore ?u) (score ?u),
        stored := (if score ?u > highScore ?u then Some (score ?u) else stored ?u),
        explosionParticles := explosionParticles ?u @ news, seed := k\<rparr>"
    "length news = 80"
    using fatalCollision_eq [of rnd ?u] by blast
  have "gameLoop rnd r s =
      ?u\<lparr>gameOver := True, highScore := max (highScore s) (score ?u),
        stored := (if score ?u > highScore s then Some (score ?u) else stored ?u),
        explosionParticles := explosionParticles ?u @ news, seed := k\<rparr>"
    unfolding g n(1) by (simp add: scanState_fields(1))
  with n(2) show ?thesis by blast
qed

lemma updatePlayer_seed: "player (updatePlayer r (s\<lparr>seed := k\<rparr>)) = player (updatePlayer r s)"
  by (simp add: updatePlayer_def movePlayer_def playerIntent_def Let_def)

lemma updatePlayer_fixedFields:
  "fixedFields (player s) \<Longrightarrow> fixedFields (player (updatePlayer r s))"
  by (simp add: updatePlayer_def movePlayer_def Let_def fixedFields_def)

text \<open>
  \<open>resetGame\<close> ends with a call of \<open>gameLoop\<close>: a frame on the reset state, in which
  the player moves if a key or a finger is down, nothing is spawned and nothing collides.
\<close>

lemma resetGame_eq:
  "\<exists>k. resetGame rnd r t =
     (resetFields t)\<lparr>player := player (updatePlayer r (resetFields t)),
                      frameCount := 1, seed := k\<rparr>"
proof -
  let ?z = "drawJungleBackground (resetFields t)"
  have z: "obstacles ?z = []" "frameCount ?z = 0" "score ?z = 0" "bonusParticles ?z = []"
    "\<not> gameOver ?z" "scoreFlashTime ?z = 0"
    by (simp_all add: drawJungleBackground_def resetFields_def)
  obtain batch k where u: "updates rnd r ?z =
      ?z\<lparr>player := player (updatePlayer r ?z),
        obstacles := survivors (obstacles ?z) @ batch,
        score := score ?z + 10 * int (length (leavers (obstacles ?z))),
        frameCount := frameCount ?z + 1, seed := k,
        bonusParticles := updateBonusParticles_loop (length (bonusParticles ?z)) (bonusParticles ?z)\<rparr>"
    and b: "(frameCount ?z + 1) mod obstacleSpawnRate \<noteq> 0 \<longrightarrow> batch = [] \<and> k = seed ?z"
    using updates_eq [of rnd r ?z] by blast
  from b have "batch = []" by (simp add: z obstacleSpawnRate_def)
  then have u': "updates rnd r ?z =
      (resetFields t)\<lparr>player := player (updatePlayer r (resetFields t)),
                      frameCount := 1, seed := k\<rparr>"
    unfolding u
    by (simp add: z survivors_def leavers_def)
       (simp add: drawJungleBackground_def resetFields_def updatePlayer_seed)
  let ?u = "(resetFields t)\<lparr>player := player (updatePlayer r (resetFields t)),
                      frameCount := 1, seed := k\<rparr>"
  have "obstacles ?u = []" "scoreFlashTime ?u = 0" by (simp_all add: resetFields_def)
  then have c: "checkCollision rnd ?u = (False, ?u)" "drawScore ?u = ?u"
    by (simp_all add: checkCollision_def drawScore_def)
  have "\<not> gameOver (resetFields t)" by (simp add: resetFields_def)
  then have "resetGame rnd r t =
      (case checkCollision rnd (updates rnd r ?z) of
         (hit, s1) \<Rightarrow> if hit then fatalCollision rnd s1 else drawScore s1)"
    unfolding resetGame_def by (rule gameLoop_playing)
  also have "\<dots> = ?u"
    by (simp only: u' c prod.case if_False)
  finally show ?thesis by blast
qed

text \<open>
  C6. Let a frame of play end in a fatal collision at score 540, with the high score 300
  before it, and let any number of frames of the explosion follow. Then the game is over
  with score 540 and high score 540, committed at the collision. The assignments of
  \<open>resetGame\<close> yield score 0, no obstacles, no particles of either kind, high score
  540, the player of the object literal and a game that is playing again; and so does
  the whole of \<open>resetGame\<close>, whose closing call of \<open>gameLoop\<close> already runs the
  first frame, in which the player moves if a key or a finger is still down.
\<close>

theorem reset_after_game_over:
  assumes "\<not> gameOver s"
    and "firstOverlap (scanState rnd r s) i"
    and "\<not> (o_isBonus (obstacles (scanState rnd r s) ! i)
            \<and> o_hasTransformed (obstacles (scanState rnd r s) ! i))"
    and "score (scanState rnd r s) = 540"
    and "highScore s = 300"
    and "fixedFields (player s)"
    and "t = run rnd (map Frame rs) (gameLoop rnd r s)"
  shows "runState t \<noteq> Playing \<and> score t = 540 \<and> highScore t = 540
       \<and> score (resetFields t) = 0 \<and> obstacles (resetFields t) = []
       \<and> explosionParticles (resetFields t) = [] \<and> bonusParticles (resetFields t) = []
       \<and> highScore (resetFields t) = 540 \<and> player (resetFields t) = initial_player
       \<and> runState (resetFields t) = Playing
       \<and> score (resetGame rnd r' t) = 0 \<and> obstacles (resetGame rnd r' t) = []
       \<and> explosionParticles (resetGame rnd r' t) = []
       \<and> bonusParticles (resetGame rnd r' t) = []
       \<and> highScore (resetGame rnd r' t) = 540 \<and> runState (resetGame rnd r' t) = Playing
       \<and> player (resetGame rnd r' t) = player (updatePlayer r' (resetFields t))
       \<and> (\<not> isTouching t \<and> (\<forall>k. \<not> keys t k) \<longrightarrow> player (resetGame rnd r' t) = initial_player)"
proof -
  let ?u = "scanState rnd r s"
  let ?g = "gameLoop rnd r s"
  obtain news k where g: "?g =
      ?u\<lparr>gameOver := True, highScore := max (highScore s) (score ?u),
        stored := (if score ?u > highScore s then Some (score ?u) else stored ?u),
        explosionParticles := explosionParticles ?u @ news, seed := k\<rparr>"
    using gameLoop_fatal [OF assms(1-3)] by blast
  have go: "gameOver ?g" and sc: "score ?g = 540" and hs: "highScore ?g = 540"
    and pl: "player ?g = player (updatePlayer r s)"
    by (subst g, simp add: assms(4,5) scanState_fields(3))+
  from terminal_frames [OF go, of rnd rs] assms(7)
  have t: "gameOver t" "score t = 540" "highScore t = 540" "player t = player (updatePlayer r s)"
    by (simp_all add: sc hs pl)
  have ff: "fixedFields (player t)"
    using updatePlayer_fixedFields [OF assms(6), of r] t(4) by simp
  have p0: "player (resetFields t) = initial_player"
    using ff by (simp add: resetFields_def fixedFields_def initial_player_def)
  obtain k' where rg: "resetGame rnd r' t =
     (resetFields t)\<lparr>player := player (updatePlayer r' (resetFields t)),
                      frameCount := 1, seed := k'\<rparr>"
    using resetGame_eq [of rnd r' t] by blast
  have idle: "player (updatePlayer r' (resetFields t)) = initial_player"
    if "\<not> isTouching t" "\<forall>k. \<not> keys t k"
  proof -
    have "playerIntent r' (resetFields t) = 0"
      using that by (simp add: playerIntent_def resetFields_def Let_def)
    then have "player (updatePlayer r' (resetFields t)) = player (movePlayer 0 (resetFields t))"
      by (simp add: updatePlayer_def)
    also have "\<dots> = initial_player"
      using p0 by (simp add: movePlayer_def Let_def initial_player_def canvas_width_def)
    finally show ?thesis .
  qed
  have a: "runState t \<noteq> Playing \<and> score t = 540 \<and> highScore t = 540"
    using t by (simp add: runState_def)
  have b: "score (resetFields t) = 0 \<and> obstacles (resetFields t) = []
       \<and> explosionParticles (resetFields t) = [] \<and> bonusParticles (resetFields t) = []
       \<and> highScore (resetFields t) = 540 \<and> runState (resetFields t) = Playing"
    using t by (simp add: resetFields_def runState_def)
  have c: "score (resetGame rnd r' t) = 0 \<and> obstacles (resetGame rnd r' t) = []
       \<and> explosionParticles (resetGame rnd r' t) = []
       \<and> bonusParticles (resetGame rnd r' t) = []
       \<and> highScore (resetGame rnd r' t) = 540 \<and> runState (resetGame rnd r' t) = Playing
       \<and> player (resetGame rnd r' t) = player (updatePlayer r' (resetFields t))"
    unfolding rg using t by (simp add: resetFields_def runState_def)
  from a b c p0 idle show ?thesis by simp
qed

lemma scanState_crash:
  "obstacles (scanState rnd_zero rect_canvas crash_state) = [green_banana\<lparr>o_y := 483\<rparr>]"
  "player (scanState rnd_zero rect_canvas crash_state) = initial_player"
  "score (scanState rnd_zero rect_canvas crash_state) = 540"
  "showGameOverText (scanState rnd_zero rect_canvas crash_state) = False"
  "explosionParticles (scanState rnd_zero rect_canvas crash_state) = []"
  by (simp_all add: scanState_def frame_eval crash_state_def green_banana_def)

lemma crash_state_hyps:
  "\<not> gameOver crash_state"
  "firstOverlap (scanState rnd_zero rect_canvas crash_state) 0"
  "\<not> (o_isBonus (obstacles (scanState rnd_zero rect_canvas crash_state) ! 0)
      \<and> o_hasTransformed (obstacles (scanState rnd_zero rect_canvas crash_state) ! 0))"
  "highScore crash_state = 300"
  "fixedFields (player crash_state)"
proof -
  show "\<not> gameOver crash_state" "highScore crash_state = 300"
    "fixedFields (player crash_state)"
    by (simp_all add: crash_state_def initial_def initial_player_def fixedFields_def
        canvas_height_def)
  show "firstOverlap (scanState rnd_zero rect_canvas crash_state) 0"
    by (simp add: firstOverlap_def scanState_crash overlaps_def playerHitbox_def
        obstacleHitbox_def padding_def initial_player_def green_banana_def canvas_width_def
        canvas_height_def Let_def)
  show "\<not> (o_isBonus (obstacles (scanState rnd_zero rect_canvas crash_state) ! 0)
      \<and> o_hasTransformed (obstacles (scanState rnd_zero rect_canvas crash_state) ! 0))"
    by (simp add: scanState_crash green_banana_def)
qed

lemma exploding_state_fields:
  "gameOver exploding_state" "\<not> showGameOverText exploding_state"
  "score exploding_state = 540" "highScore exploding_state = 540"
  "obstacles exploding_state = [green_banana\<lparr>o_y := 483\<rparr>]"
  "length (explosionParticles exploding_state) = 80"
proof -
  obtain news k where g: "gameLoop rnd_zero rect_canvas crash_state =
      (scanState rnd_zero rect_canvas crash_state)\<lparr>gameOver := True,
        highScore := max (highScore crash_state) (score (scanState rnd_zero rect_canvas crash_state)),
        stored := (if score (scanState rnd_zero rect_canvas crash_state) > highScore crash_state
                   then Some (score (scanState rnd_zero rect_canvas crash_state))
                   else stored (scanState rnd_zero rect_canvas crash_state)),
        explosionParticles := explosionParticles (scanState rnd_zero rect_canvas crash_state) @ news,
        seed := k\<rparr>"
    and n: "length news = 80"
    using gameLoop_fatal [OF crash_state_hyps(1-3)] by blast
  show "gameOver exploding_state" "\<not> showGameOverText exploding_state"
    "score exploding_state = 540" "highScore exploding_state = 540"
    "obstacles exploding_state = [green_banana\<lparr>o_y := 483\<rparr>]"
    "length (explosionParticles exploding_state) = 80"
    unfolding exploding_state_def
    by (subst g, simp add: scanState_crash crash_state_hyps(4) n)+
qed

theorem reset_after_game_over_witness:
  "\<not> gameOver crash_state
   \<and> firstOverlap (scanState rnd_zero rect_canvas crash_state) 0
   \<and> \<not> o_isBonus (obstacles (scanState rnd_zero rect_canvas crash_state) ! 0)
   \<and> score (scanState rnd_zero rect_canvas crash_state) = 540
   \<and> highScore crash_state = 300
   \<and> fixedFields (player crash_state)
   \<and> highScore (run rnd_zero [Frame rect_canvas, Frame rect_canvas] exploding_state) = 540
   \<and> score (resetFields (run rnd_zero [Frame rect_canvas, Frame rect_canvas] exploding_state)) = 0
   \<and> highScore (resetFields (run rnd_zero [Frame rect_canvas, Frame rect_canvas] exploding_state))
       = 540
   \<and> player (resetFields (run rnd_zero [Frame rect_canvas, Frame rect_canvas] exploding_state))
       = initial_player
   \<and> obstacles (resetGame rnd_zero rect_canvas
        (run rnd_zero [Frame rect_canvas, Frame rect_canvas] exploding_state)) = []
   \<and> highScore (resetGame rnd_zero rect_canvas
        (run rnd_zero [Frame rect_canvas, Frame rect_canvas] exploding_state)) = 540
   \<and> runState (resetGame rnd_zero rect_canvas
        (run rnd_zero [Frame rect_canvas, Frame rect_canvas] exploding_state)) = Playing"
proof -
  have t: "run rnd_zero [Frame rect_canvas, Frame rect_canvas] exploding_state
     = run rnd_zero (map Frame [rect_canvas, rect_canvas]) (gameLoop rnd_zero rect_canvas crash_state)"
    by (simp add: exploding_state_def)
  have b: "\<not> o_isBonus (obstacles (scanState rnd_zero rect_canvas crash_state) ! 0)"
    by (simp add: scanState_crash green_banana_def)
  show ?thesis
    using crash_state_hyps b scanState_crash(3)
      reset_after_game_over [OF crash_state_hyps(1-3) scanState_crash(3) crash_state_hyps(4,5) t,
        of rect_canvas]
    by simp
qed

text \<open>
  C7, as the code has it. Both listeners test the flag \<open>gameOver\<close> and nothing else
  of the run state. While the game is playing a click changes nothing and a touch only
  starts a movement; from the fatal collision on, during the explosion as well as once
  the game-over text and the button are shown, a hit inside the rectangle of the button
  calls \<open>resetGame\<close> and a hit outside changes nothing.
\<close>

theorem restart_gate:
  "(runState s = Playing \<longrightarrow>
      click rnd cx cy r s = s
      \<and> touchstart rnd cx cy r s
          = s\<lparr>touchStartX := cx, touchCurrentX := cx, isTouching := True\<rparr>)
   \<and> (runState s \<noteq> Playing \<longrightarrow>
      click rnd cx cy r s
        = (if insideRestartButton (fst (toCanvas cx cy r)) (snd (toCanvas cx cy r))
           then resetGame rnd r s else s)
      \<and> touchstart rnd cx cy r s
        = (if insideRestartButton (fst (toCanvas cx cy r)) (snd (toCanvas cx cy r))
           then resetGame rnd r s else s))"
  by (simp add: click_def touchstart_def runState_def split: prod.splits)

lemma inside_button_400_390:
  "insideRestartButton (fst (toCanvas 400 390 rect_canvas)) (snd (toCanvas 400 390 rect_canvas))"
  by (simp add: insideRestartButton_def toCanvas_def rect_canvas_def canvas_width_def
      canvas_height_def Let_def)

theorem restart_gate_witness:
  "runState crash_state = Playing
   \<and> click rnd_zero 400 390 rect_canvas crash_state = crash_state
   \<and> runState exploding_state \<noteq> Playing
   \<and> insideRestartButton (fst (toCanvas 400 390 rect_canvas)) (snd (toCanvas 400 390 rect_canvas))
   \<and> click rnd_zero 400 390 rect_canvas exploding_state
       = resetGame rnd_zero rect_canvas exploding_state
   \<and> touchstart rnd_zero 400 390 rect_canvas exploding_state
       = resetGame rnd_zero rect_canvas exploding_state"
proof -
  have p: "runState crash_state = Playing"
    using crash_state_hyps(1) by (simp add: runState_def)
  have e: "runState exploding_state \<noteq> Playing"
    using exploding_state_fields(1) by (simp add: runState_def)
  show ?thesis
    using p e inside_button_400_390
      restart_gate [of crash_state rnd_zero 400 390 rect_canvas]
      restart_gate [of exploding_state rnd_zero 400 390 rect_canvas]
    by simp
qed

text \<open>
  In the frame after the crash the explosion has eighty particles and the game-over text
  and the button are not yet shown; a click or a touch at (400, 390) restarts the game.
\<close>

theorem restart_while_exploding_counterexample:
  "runState exploding_state = Exploding
   \<and> length (explosionParticles exploding_state) = 80
   \<and> score exploding_state = 540
   \<and> insideRestartButton (fst (toCanvas 400 390 rect_canvas)) (snd (toCanvas 400 390 rect_canvas))
   \<and> runState (click rnd_zero 400 390 rect_canvas exploding_state) = Playing
   \<and> score (click rnd_zero 400 390 rect_canvas exploding_state) = 0
   \<and> obstacles (click rnd_zero 400 390 rect_canvas exploding_state) = []
   \<and> runState (touchstart rnd_zero 400 390 rect_canvas exploding_state) = Playing"
proof -
  obtain k where rg: "resetGame rnd_zero rect_canvas exploding_state =
     (resetFields exploding_state)\<lparr>player := player (updatePlayer rect_canvas (resetFields exploding_state)),
                      frameCount := 1, seed := k\<rparr>"
    using resetGame_eq [of rnd_zero rect_canvas exploding_state] by blast
  have c: "click rnd_zero 400 390 rect_canvas exploding_state
       = resetGame rnd_zero rect_canvas exploding_state"
    "touchstart rnd_zero 400 390 rect_canvas exploding_state
       = resetGame rnd_zero rect_canvas exploding_state"
    using inside_button_400_390 exploding_state_fields(1)
    by (simp_all add: click_def touchstart_def case_prod_beta)
  have r: "runState (resetGame rnd_zero rect_canvas exploding_state) = Playing"
    "score (resetGame rnd_zero rect_canvas exploding_state) = 0"
    "obstacles (resetGame rnd_zero rect_canvas exploding_state) = []"
    unfolding rg by (simp_all add: runState_def resetFields_def)
  show ?thesis
    using exploding_state_fields inside_button_400_390 r
    by (simp add: c runState_def)
qed

end
